theory Spec2Isabelle
  imports Main "HOL-Library.AList"
begin

section \<open>The Megaverse client (megaverse.py)\<close>

text \<open>
  The client talks to a remote service through the third-party package \<open>requests\<close>, reads
  the wall clock and sleeps. None of this is code of the repository, so it is the
  environment of the model: an oracle \<open>respond\<close> that decides what the n-th request handed
  to the transport produces, and an oracle \<open>latency\<close> that decides how much time passes at
  the k-th timed step (reading the clock, sleeping, waiting for the transport). Time is an
  integer number of microseconds, the resolution of \<open>datetime\<close> and \<open>timedelta\<close>; it never
  runs backwards, and \<open>time.sleep\<close> lasts at least as long as asked. The names of the
  source are kept, without the leading underscore of \<open>_rate_time\<close> and
  \<open>_handle_requests\<close>.
\<close>

subsection \<open>Values\<close>

text \<open>What \<open>response.json()\<close> can return.\<close>

datatype json =
    JNull
  | JBool bool
  | JNum int
  | JStr string
  | JArr "json list"
  | JObj "(string \<times> json) list"

text \<open>The values the client puts in a request body.\<close>

datatype pyval = PInt int | PStr string

text \<open>
  Exceptions. An exception object is an instance of several classes (its class and the
  bases of it); an \<open>except C\<close> clause matches when \<open>C\<close> is one of them. The first four
  classes are those of \<open>requests.exceptions\<close>, the next six are Python's built-in ones.
\<close>

datatype pyclass =
    HTTPError
  | ConnectionError
  | Timeout
  | RequestException
  | AttributeError
  | IndexError
  | KeyError
  | TypeError
  | ValueError
  | OverflowError
  | OtherException string

datatype exn = Exc (classes: "pyclass list") (message: string)

definition isinstance :: "exn \<Rightarrow> pyclass \<Rightarrow> bool" where
  "isinstance e c = (c \<in> set (classes e))"

subsection \<open>Enumerations\<close>

text \<open>
  \<open>class SoloonColor(Enum)\<close> and \<open>class ComethDirection(Enum)\<close>: the member names with their
  values, in the order of the source.
\<close>

definition SoloonColor :: "(string \<times> string) list" where
  "SoloonColor = [(''BLUE'', ''blue''), (''RED'', ''red''), (''PURPLE'', ''purple''), (''WHITE'', ''white'')]"

definition ComethDirection :: "(string \<times> string) list" where
  "ComethDirection = [(''UP'', ''up''), (''DOWN'', ''down''), (''RIGHT'', ''right''), (''LEFT'', ''left'')]"

text \<open>
  \<open>getattr(E, text).value\<close> inside \<open>try ... except AttributeError\<close>: the value of the member
  called \<open>text\<close>, or \<open>None\<close> when the lookup raises AttributeError. The text is a segment
  of a label split at underscores, so it holds no underscore and cannot name one of the
  special attributes of an Enum class.
\<close>

definition getattr_value :: "(string \<times> string) list \<Rightarrow> string \<Rightarrow> string option" where
  "getattr_value enum text = map_of enum text"

subsection \<open>Requests, responses and the environment\<close>

record request =
  req_method :: string
  req_url :: string
  req_data :: "(string \<times> pyval) list"

text \<open>
  A response object: its status code and what its \<open>json()\<close> method does, which is to return
  the parsed body or to raise.
\<close>

record response =
  status_code :: int
  json_result :: "exn + json"

datatype outcome = Returns response | Raises exn

record env =
  respond :: "nat \<Rightarrow> request \<Rightarrow> outcome"
  latency :: "nat \<Rightarrow> nat"

text \<open>
  \<open>response.raise_for_status()\<close> of the package \<open>requests\<close>: it raises HTTPError, a
  subclass of RequestException, for the status codes from 400 to 599. The message of the
  real exception also holds the code, the reason phrase and the URL.
\<close>

definition raise_for_status :: "response \<Rightarrow> exn option" where
  "raise_for_status r =
     (if 400 \<le> status_code r \<and> status_code r < 500
        then Some (Exc [HTTPError, RequestException] ''Client Error'')
      else if 500 \<le> status_code r \<and> status_code r < 600
        then Some (Exc [HTTPError, RequestException] ''Server Error'')
      else None)"

text \<open>
  The functions of the package \<open>requests\<close> that send a request and take
  \<open>(url, data=...)\<close>. Any other string names nothing in the package, and
  \<open>getattr(requests, method)\<close> raises AttributeError, or it names something that this
  call cannot use and the call raises TypeError; no handler of the dispatcher catches
  either, and the model raises AttributeError for all of them.
\<close>

definition requests_functions :: "string list" where
  "requests_functions = [''get'', ''options'', ''head'', ''post'', ''put'', ''patch'', ''delete'']"

subsection \<open>The state\<close>

datatype log_entry = LogError string | LogInfo string

text \<open>
  The first four fields are those of the object \<open>MegaverseAPI\<close>; the others are the world
  around it: the clock, the number of timed steps so far, the requests handed to the
  transport and the log, both oldest first.
\<close>

record state =
  candidate_id :: string
  base_url :: string
  request_delay :: int
  last_request_time :: int
  clock :: int
  tick :: nat
  sent :: "request list"
  logged :: "log_entry list"

definition elapse :: "env \<Rightarrow> state \<Rightarrow> state" where
  "elapse env s = s\<lparr>clock := clock s + int (latency env (tick s)), tick := Suc (tick s)\<rparr>"

definition datetime_now :: "env \<Rightarrow> state \<Rightarrow> int \<times> state" where
  "datetime_now env s = (let s' = elapse env s in (clock s', s'))"

text \<open>
  \<open>time.sleep\<close> turns its argument into a number of nanoseconds in a signed integer of 64
  bits: the longest wait it accepts is \<open>sleep_max\<close> microseconds, a little over 9.2
  thousand million seconds, and it raises OverflowError for a longer one (up to the
  rounding of the floating-point argument, which is not modelled). It raises ValueError
  for a negative one. Otherwise the wait lasts at least as long as asked.
\<close>

definition sleep_max :: int where
  "sleep_max = 9223372036854775"

definition time_sleep :: "env \<Rightarrow> int \<Rightarrow> state \<Rightarrow> (exn + unit) \<times> state" where
  "time_sleep env secs s =
     (if secs < 0
        then (Inl (Exc [ValueError] ''sleep length must be non-negative''), s)
      else if sleep_max < secs
        then (Inl (Exc [OverflowError] ''timestamp too large to convert to C _PyTime_t''), s)
      else (Inr (), elapse env (s\<lparr>clock := clock s + secs\<rparr>)))"

definition logging_error :: "string \<Rightarrow> state \<Rightarrow> state" where
  "logging_error msg s = s\<lparr>logged := logged s @ [LogError msg]\<rparr>"

definition logging_info :: "string \<Rightarrow> state \<Rightarrow> state" where
  "logging_info msg s = s\<lparr>logged := logged s @ [LogInfo msg]\<rparr>"

text \<open>
  \<open>__init__\<close>: the configuration file gives the candidate id, the base URL and, optionally,
  the delay (0.6 seconds when absent); the time of construction is the first
  \<open>last_request_time\<close>. The world starts at time \<open>t0\<close>.
\<close>

record config =
  cfg_candidate_id :: string
  cfg_base_url :: string
  cfg_request_delay :: "int option"

definition init :: "env \<Rightarrow> config \<Rightarrow> int \<Rightarrow> state" where
  "init env cfg t0 =
     (let delay = (case cfg_request_delay cfg of None \<Rightarrow> 600000 | Some d \<Rightarrow> d);
          s = \<lparr>candidate_id = cfg_candidate_id cfg, base_url = cfg_base_url cfg,
               request_delay = delay, last_request_time = t0,
               clock = t0, tick = 0, sent = [], logged = []\<rparr>;
          (now, s') = datetime_now env s
      in s'\<lparr>last_request_time := now\<rparr>)"

subsection \<open>The rate limiter and the dispatcher\<close>

text \<open>
  \<open>_rate_time\<close>. An exception of \<open>time.sleep\<close> leaves the method before the timestamp is
  recorded.
\<close>

definition rate_time :: "env \<Rightarrow> state \<Rightarrow> (exn + unit) \<times> state" where
  "rate_time env s =
     (let (now, s1) = datetime_now env s;
          slept = (if now - last_request_time s1 < request_delay s1
                   then (let wait_time = request_delay s1 - (now - last_request_time s1)
                         in time_sleep env wait_time s1)
                   else (Inr (), s1))
      in case slept of
           (Inl e, s2) \<Rightarrow> (Inl e, s2)
         | (Inr _, s2) \<Rightarrow>
             (let (now', s3) = datetime_now env s2
              in (Inr (), s3\<lparr>last_request_time := now'\<rparr>)))"

text \<open>
  \<open>{"candidateId": self.candidate_id, **kwards}\<close>: a dictionary keeps its keys in the order
  of their first insertion, and a later value for a key replaces the earlier one in place.
\<close>

definition dict_unpack :: "(string \<times> pyval) list \<Rightarrow> (string \<times> pyval) list \<Rightarrow> (string \<times> pyval) list" where
  "dict_unpack d kwards = fold (\<lambda>kv. AList.update (fst kv) (snd kv)) kwards d"

text \<open>
  The call \<open>getattr(requests, method)(url, data=payload)\<close> once the function is found: the
  request reaches the transport, the environment decides its outcome, and time passes.
\<close>

definition transport :: "env \<Rightarrow> string \<Rightarrow> string \<Rightarrow> (string \<times> pyval) list \<Rightarrow> state \<Rightarrow> outcome \<times> state" where
  "transport env method url payload s =
     (let req = \<lparr>req_method = method, req_url = url, req_data = payload\<rparr>
      in (respond env (length (sent s)) req, elapse env (s\<lparr>sent := sent s @ [req]\<rparr>)))"

text \<open>
  \<open>_handle_requests\<close>. The fields \<open>kwards\<close> are the keyword dictionary Python has bound
  for the call: each key once, none of them the name of another parameter (such a call
  fails before the body runs). The rate limiter runs before the \<open>try\<close>, so what it raises
  leaves the method. The result is \<open>Inl\<close> for an exception that leaves the method,
  \<open>Inr None\<close> when a handler caught one (the method then falls off its end), and
  \<open>Inr (Some j)\<close> for the parsed body.
\<close>

definition handle_requests :: "env \<Rightarrow> string \<Rightarrow> string \<Rightarrow> (string \<times> pyval) list \<Rightarrow> state \<Rightarrow> (exn + json option) \<times> state" where
  "handle_requests env method endpoint kwards s =
     (case rate_time env s of
        (Inl e, s1) \<Rightarrow> (Inl e, s1)
      | (Inr _, s1) \<Rightarrow>
          (let url = base_url s1 @ ''/'' @ endpoint;
               payload = dict_unpack [(''candidateId'', PStr (candidate_id s1))] kwards
           in if method \<notin> set requests_functions
              then (Inl (Exc [AttributeError] (''module requests has no attribute '' @ method)), s1)
              else
                (let (out, s2) = transport env method url payload s1;
                     tried = (case out of
                                Raises e \<Rightarrow> Inl e
                              | Returns resp \<Rightarrow>
                                  (case raise_for_status resp of
                                     Some e \<Rightarrow> Inl e
                                   | None \<Rightarrow> json_result resp))
                 in case tried of
                      Inr j \<Rightarrow> (Inr (Some j), s2)
                    | Inl error \<Rightarrow>
                        if isinstance error HTTPError
                          then (Inr None, logging_error (''HTTP Error: '' @ message error) s2)
                        else if isinstance error ConnectionError
                          then (Inr None, logging_error (''Error Connecting: '' @ message error) s2)
                        else if isinstance error Timeout
                          then (Inr None, logging_error (''Timeout Error: '' @ message error) s2)
                        else if isinstance error RequestException
                          then (Inr None, logging_error (''Something weird went wrong: '' @ message error) s2)
                        else (Inl error, s2))))"

subsection \<open>Strings\<close>

text \<open>\<open>str.capitalize\<close> on ASCII text: the first character in upper case, the rest in lower case.\<close>

definition upper_char :: "char \<Rightarrow> char" where
  "upper_char c = (let n = (of_char c :: nat) in if 97 \<le> n \<and> n \<le> 122 then char_of (n - 32) else c)"

definition lower_char :: "char \<Rightarrow> char" where
  "lower_char c = (let n = (of_char c :: nat) in if 65 \<le> n \<and> n \<le> 90 then char_of (n + 32) else c)"

fun capitalize :: "string \<Rightarrow> string" where
  "capitalize [] = []"
| "capitalize (c # cs) = upper_char c # map lower_char cs"

text \<open>
  \<open>text.split(sep)\<close> with a separator of one character: the pieces between the
  separators, empty pieces included; a text without separator is its only piece.
\<close>

fun split :: "string \<Rightarrow> char \<Rightarrow> string list" where
  "split [] sep = [[]]"
| "split (c # cs) sep =
     (if c = sep then [] # split cs sep
      else (case split cs sep of
              [] \<Rightarrow> [[c]]
            | w # ws \<Rightarrow> (c # w) # ws))"

subsection \<open>Creating and deleting objects\<close>

text \<open>
  A keyword that has the name of a parameter of \<open>create_object\<close> or of \<open>_handle_requests\<close>
  makes the call of \<open>create_object\<close> raise TypeError, when its own parameters are bound or
  at its call of \<open>_handle_requests\<close>, before anything else happens.
\<close>

definition colliding :: "string list" where
  "colliding = [''self'', ''object_type'', ''row'', ''column'', ''method'', ''endpoint'']"

definition create_object :: "env \<Rightarrow> string \<Rightarrow> int \<Rightarrow> int \<Rightarrow> (string \<times> pyval) list \<Rightarrow> state \<Rightarrow> (exn + unit) \<times> state" where
  "create_object env object_type row column kwargs s =
     (if \<exists>k \<in> set (map fst kwargs). k \<in> set colliding
      then (Inl (Exc [TypeError] ''got multiple values for an argument''), s)
      else
        (case handle_requests env ''post'' object_type
                ([(''row'', PInt row), (''column'', PInt column)] @ kwargs) s of
           (Inl e, s') \<Rightarrow> (Inl e, s')
         | (Inr _, s') \<Rightarrow> (Inr (), logging_info (capitalize object_type @ '' successfully created'') s')))"

definition delete_object :: "env \<Rightarrow> string \<Rightarrow> int \<Rightarrow> int \<Rightarrow> state \<Rightarrow> (exn + unit) \<times> state" where
  "delete_object env object_type row column s =
     (case handle_requests env ''delete'' object_type
             [(''row'', PInt row), (''column'', PInt column)] s of
        (Inl e, s') \<Rightarrow> (Inl e, s')
      | (Inr _, s') \<Rightarrow> (Inr (), logging_info (capitalize object_type @ '' successfully deleted'') s'))"

definition create_soloon :: "env \<Rightarrow> int \<Rightarrow> int \<Rightarrow> string \<Rightarrow> state \<Rightarrow> (exn + unit) \<times> state" where
  "create_soloon env row column color s =
     create_object env ''soloons'' row column [(''color'', PStr color)] s"

definition delete_soloon :: "env \<Rightarrow> int \<Rightarrow> int \<Rightarrow> state \<Rightarrow> (exn + unit) \<times> state" where
  "delete_soloon env row column s = delete_object env ''soloons'' row column s"

definition create_cometh :: "env \<Rightarrow> int \<Rightarrow> int \<Rightarrow> string \<Rightarrow> state \<Rightarrow> (exn + unit) \<times> state" where
  "create_cometh env row column direction s =
     create_object env ''comeths'' row column [(''direction'', PStr direction)] s"

definition delete_cometh :: "env \<Rightarrow> int \<Rightarrow> int \<Rightarrow> state \<Rightarrow> (exn + unit) \<times> state" where
  "delete_cometh env row column s = delete_object env ''comeths'' row column s"

definition create_polyanet :: "env \<Rightarrow> int \<Rightarrow> int \<Rightarrow> state \<Rightarrow> (exn + unit) \<times> state" where
  "create_polyanet env row column s = create_object env ''polyanets'' row column [] s"

definition delete_polyanet :: "env \<Rightarrow> int \<Rightarrow> int \<Rightarrow> state \<Rightarrow> (exn + unit) \<times> state" where
  "delete_polyanet env row column s = delete_object env ''polyanets'' row column s"

subsection \<open>The cross\<close>

text \<open>The body of the loop of \<open>create_polyanet_cross\<close>, for one \<open>i\<close>.\<close>

definition cross_body :: "env \<Rightarrow> int \<Rightarrow> state \<Rightarrow> (exn + unit) \<times> state" where
  "cross_body env i s =
     (if i = 5 then create_polyanet env i i s
      else if i \<ge> 2 \<and> i \<le> 8 then
        (case create_polyanet env i i s of
           (Inl e, s') \<Rightarrow> (Inl e, s')
         | (Inr _, s') \<Rightarrow> create_polyanet env i (10 - i) s')
      else (Inr (), s))"

fun cross_loop :: "env \<Rightarrow> int list \<Rightarrow> state \<Rightarrow> (exn + unit) \<times> state" where
  "cross_loop env [] s = (Inr (), s)"
| "cross_loop env (i # rest) s =
     (case cross_body env i s of
        (Inl e, s') \<Rightarrow> (Inl e, s')
      | (Inr _, s') \<Rightarrow> cross_loop env rest s')"

text \<open>\<open>range(11)\<close> is the list of the integers from 0 to 10.\<close>

definition create_polyanet_cross :: "env \<Rightarrow> state \<Rightarrow> (exn + unit) \<times> state" where
  "create_polyanet_cross env s = cross_loop env [0, 1, 2, 3, 4, 5, 6, 7, 8, 9, 10] s"

subsection \<open>The goal map and the builder\<close>

definition goal_map :: "env \<Rightarrow> state \<Rightarrow> (exn + json option) \<times> state" where
  "goal_map env s = handle_requests env ''get'' (''map/'' @ candidate_id s @ ''/goal'') [] s"

definition type_name :: "json \<Rightarrow> string" where
  "type_name v =
     (case v of JNull \<Rightarrow> ''NoneType'' | JBool _ \<Rightarrow> ''bool'' | JNum _ \<Rightarrow> ''int''
      | JStr _ \<Rightarrow> ''str'' | JArr _ \<Rightarrow> ''list'' | JObj _ \<Rightarrow> ''dict'')"

text \<open>
  What a \<open>for\<close> loop iterates over: the elements of a list, the keys of a dictionary, the
  characters of a string; any other value of a JSON document raises TypeError.
\<close>

definition iter_json :: "json \<Rightarrow> exn + json list" where
  "iter_json v =
     (case v of
        JArr xs \<Rightarrow> Inr xs
      | JObj kvs \<Rightarrow> Inr (map (\<lambda>kv. JStr (fst kv)) kvs)
      | JStr text \<Rightarrow> Inr (map (\<lambda>c. JStr [c]) text)
      | _ \<Rightarrow> Inl (Exc [TypeError] (type_name v @ '' object is not iterable'')))"

text \<open>
  How a loop goes on after its body: to the next element, out of the function by
  \<open>return\<close>, or out of it by an exception.
\<close>

datatype control = Proceed | Returned | Raised exn

definition after_call :: "(exn + unit) \<times> state \<Rightarrow> control \<times> state" where
  "after_call r = (case r of (Inl e, s) \<Rightarrow> (Raised e, s) | (Inr _, s) \<Rightarrow> (Proceed, s))"

text \<open>
  The body of the inner loop of \<open>create_crossmint_logo\<close>, for the cell \<open>(i, j)\<close> holding
  \<open>object_name\<close>. A value that is not a string passes the two comparisons and has no
  method \<open>split\<close>; a string without underscore has no second piece.
\<close>

definition process_cell :: "env \<Rightarrow> nat \<Rightarrow> nat \<Rightarrow> json \<Rightarrow> state \<Rightarrow> control \<times> state" where
  "process_cell env i j object_name s =
     (if object_name = JStr ''SPACE'' then (Proceed, s)
      else if object_name = JStr ''POLYANET'' then after_call (create_polyanet env (int i) (int j) s)
      else
        (case object_name of
           JStr name \<Rightarrow>
             (let pieces = split name (CHR ''_'') in
              if length pieces \<le> 1
                then (Raised (Exc [IndexError] ''list index out of range''), s)
              else if pieces ! 1 = ''COMETH'' then
                (let direction_text = pieces ! 0 in
                 case getattr_value ComethDirection direction_text of
                   None \<Rightarrow> (Returned, logging_error (''Invalid Soloon direction: '' @ direction_text) s)
                 | Some direction_att \<Rightarrow>
                     after_call (create_cometh env (int i) (int j) direction_att s))
              else
                (let color_text = pieces ! 0 in
                 case getattr_value SoloonColor color_text of
                   None \<Rightarrow> (Returned, logging_error (''Invalid Soloon direction: '' @ color_text) s)
                 | Some color_att \<Rightarrow>
                     after_call (create_soloon env (int i) (int j) color_att s)))
         | _ \<Rightarrow> (Raised (Exc [AttributeError] (type_name object_name @ '' object has no attribute split'')), s)))"

text \<open>The inner loop, \<open>for j, object_name in enumerate(row)\<close>, from column \<open>j\<close> on.\<close>

fun process_row :: "env \<Rightarrow> nat \<Rightarrow> nat \<Rightarrow> json list \<Rightarrow> state \<Rightarrow> control \<times> state" where
  "process_row env i j [] s = (Proceed, s)"
| "process_row env i j (object_name # rest) s =
     (case process_cell env i j object_name s of
        (Proceed, s') \<Rightarrow> process_row env i (Suc j) rest s'
      | (c, s') \<Rightarrow> (c, s'))"

text \<open>The outer loop, \<open>for i, row in enumerate(response["goal"])\<close>, from row \<open>i\<close> on.\<close>

fun process_rows :: "env \<Rightarrow> nat \<Rightarrow> json list \<Rightarrow> state \<Rightarrow> control \<times> state" where
  "process_rows env i [] s = (Proceed, s)"
| "process_rows env i (row # rest) s =
     (case iter_json row of
        Inl e \<Rightarrow> (Raised e, s)
      | Inr cells \<Rightarrow>
          (case process_row env i 0 cells s of
             (Proceed, s') \<Rightarrow> process_rows env (Suc i) rest s'
           | (c, s') \<Rightarrow> (c, s')))"

text \<open>
  \<open>create_crossmint_logo\<close>. It returns \<open>None\<close> whether the loops ran to their end or a
  \<open>return\<close> left them; \<open>response["goal"]\<close> raises KeyError when the key is absent.
\<close>

definition create_crossmint_logo :: "env \<Rightarrow> state \<Rightarrow> (exn + unit) \<times> state" where
  "create_crossmint_logo env s =
     (case goal_map env s of
        (Inl e, s1) \<Rightarrow> (Inl e, s1)
      | (Inr response, s1) \<Rightarrow>
          (case response of
             Some (JObj d) \<Rightarrow>
               (case map_of d ''goal'' of
                  None \<Rightarrow> (Inl (Exc [KeyError] ''goal''), s1)
                | Some goal \<Rightarrow>
                    (case iter_json goal of
                       Inl e \<Rightarrow> (Inl e, s1)
                     | Inr rows \<Rightarrow>
                         (case process_rows env 0 rows s1 of
                            (Raised e, s2) \<Rightarrow> (Inl e, s2)
                          | (_, s2) \<Rightarrow> (Inr (), s2))))
           | _ \<Rightarrow> (Inr (), s1)))"

section \<open>Vocabulary of the properties\<close>

text \<open>
  The definitions of this section are not code of the client: they are the words in which
  the properties below are stated.
\<close>

subsection \<open>Environments\<close>

text \<open>
  An exception is caught by the dispatcher when it is an instance of one of the four
  classes its handlers name. An outcome is benign when everything it makes the transport
  or the response raise is caught; an environment is benign when all its outcomes are.
  A benign environment may fail every request.
\<close>

definition caught :: "exn \<Rightarrow> bool" where
  "caught e = (isinstance e HTTPError \<or> isinstance e ConnectionError \<or> isinstance e Timeout \<or> isinstance e RequestException)"

definition benign_outcome :: "outcome \<Rightarrow> bool" where
  "benign_outcome out =
     (case out of
        Raises e \<Rightarrow> caught e
      | Returns resp \<Rightarrow> (case json_result resp of Inl e \<Rightarrow> caught e | Inr _ \<Rightarrow> True))"

definition benign :: "env \<Rightarrow> bool" where
  "benign env = (\<forall>n req. benign_outcome (respond env n req))"

text \<open>
  What \<open>requests.X(url, data=payload)\<close>, \<open>raise_for_status()\<close> and \<open>json()\<close> make of an
  outcome, taken together: the parsed body, or the exception raised on the way.
\<close>

definition attempt :: "outcome \<Rightarrow> exn + json" where
  "attempt out =
     (case out of
        Raises e \<Rightarrow> Inl e
      | Returns resp \<Rightarrow> (case raise_for_status resp of Some e \<Rightarrow> Inl e | None \<Rightarrow> json_result resp))"




text \<open>
  The rate limiter can wait in a state when its delay is one that \<open>time.sleep\<close> accepts
  and the timestamp of the last request is not in the future. A client built by
  \<open>__init__\<close> with such a delay is in such a state, and stays in one.
\<close>

definition can_wait :: "state \<Rightarrow> bool" where
  "can_wait s = (request_delay s \<le> sleep_max \<and> last_request_time s \<le> clock s)"

text \<open>The state in which the rate limiter leaves.\<close>

definition waited :: "env \<Rightarrow> state \<Rightarrow> state" where
  "waited env s = snd (rate_time env s)"

subsection \<open>Requests\<close>

text \<open>
  The request that a dispatch in state \<open>s\<close> hands to the transport, the one a create
  operation sends, the one that fetches the goal map, and the one that creates a Polyanet
  at a position.
\<close>

definition new_request :: "state \<Rightarrow> string \<Rightarrow> string \<Rightarrow> (string \<times> pyval) list \<Rightarrow> request" where
  "new_request s method endpoint kwards =
     \<lparr>req_method = method, req_url = base_url s @ ''/'' @ endpoint,
      req_data = dict_unpack [(''candidateId'', PStr (candidate_id s))] kwards\<rparr>"

definition create_request :: "state \<Rightarrow> string \<Rightarrow> int \<Rightarrow> int \<Rightarrow> (string \<times> pyval) list \<Rightarrow> request" where
  "create_request s object_type row column kwargs =
     new_request s ''post'' object_type ([(''row'', PInt row), (''column'', PInt column)] @ kwargs)"

definition goal_request :: "state \<Rightarrow> request" where
  "goal_request s = new_request s ''get'' (''map/'' @ candidate_id s @ ''/goal'') []"

definition polyanet_at :: "state \<Rightarrow> int \<times> int \<Rightarrow> request" where
  "polyanet_at s p = create_request s ''polyanets'' (fst p) (snd p) []"

text \<open>\<open>isinstance(response, dict)\<close> for what the dispatcher returned.\<close>

definition is_dict :: "json option \<Rightarrow> bool" where
  "is_dict response = (case response of Some (JObj _) \<Rightarrow> True | _ \<Rightarrow> False)"

subsection \<open>The cross\<close>

text \<open>
  The positions one round of the loop of \<open>create_polyanet_cross\<close> asks for, and the
  thirteen positions of the whole cross, in the order of the requests.
\<close>

definition body_points :: "int \<Rightarrow> (int \<times> int) list" where
  "body_points i = (if i = 5 then [(i, i)] else if 2 \<le> i \<and> i \<le> 8 then [(i, i), (i, 10 - i)] else [])"

definition cross_points :: "(int \<times> int) list" where
  "cross_points = [(2, 2), (2, 8), (3, 3), (3, 7), (4, 4), (4, 6), (5, 5),
                   (6, 6), (6, 4), (7, 7), (7, 3), (8, 8), (8, 2)]"

subsection \<open>Goal grids\<close>

text \<open>
  A goal grid is a list of rows of labels. The specification sorts the labels into
  categories: the empty cell \<open>SPACE\<close>, the point \<open>POLYANET\<close>, a direction marker
  \<open>DIR_COMETH\<close>, a color marker for any other label of two parts or more, each with an
  attribute that is recognized or not; a label without underscore other than the first
  two is not a defined input.
\<close>

datatype decoded =
    Empty
  | Point
  | ColorMarker string
  | DirectionMarker string
  | Unrecognized string
  | Undefined

definition decode :: "string \<Rightarrow> decoded" where
  "decode label =
     (if label = ''SPACE'' then Empty
      else if label = ''POLYANET'' then Point
      else (case split label (CHR ''_'') of
              attr # category # _ \<Rightarrow>
                (if category = ''COMETH''
                 then (case map_of ComethDirection attr of
                         Some d \<Rightarrow> DirectionMarker d | None \<Rightarrow> Unrecognized attr)
                 else (case map_of SoloonColor attr of
                         Some c \<Rightarrow> ColorMarker c | None \<Rightarrow> Unrecognized attr))
            | _ \<Rightarrow> Undefined))"

text \<open>
  The requests a cell stands for, whether a cell lets the traversal go on, and how the
  loop leaves a cell.
\<close>

definition requests_of :: "state \<Rightarrow> nat \<times> nat \<times> string \<Rightarrow> request list" where
  "requests_of s cell =
     (case cell of (i, j, label) \<Rightarrow>
        (case decode label of
           Point \<Rightarrow> [create_request s ''polyanets'' (int i) (int j) []]
         | ColorMarker c \<Rightarrow> [create_request s ''soloons'' (int i) (int j) [(''color'', PStr c)]]
         | DirectionMarker d \<Rightarrow> [create_request s ''comeths'' (int i) (int j) [(''direction'', PStr d)]]
         | _ \<Rightarrow> []))"

definition placeable :: "nat \<times> nat \<times> string \<Rightarrow> bool" where
  "placeable cell =
     (case decode (snd (snd cell)) of Unrecognized _ \<Rightarrow> False | Undefined \<Rightarrow> False | _ \<Rightarrow> True)"

definition signal :: "string \<Rightarrow> control" where
  "signal label =
     (case decode label of
        Unrecognized _ \<Rightarrow> Returned
      | Undefined \<Rightarrow> Raised (Exc [IndexError] ''list index out of range'')
      | _ \<Rightarrow> Proceed)"

text \<open>
  The cells of a grid in row-major order, each with its row, its column and its label;
  the first function lists a row from column \<open>j\<close> on, the second a grid from row \<open>i\<close> on.
\<close>

fun row_cells :: "nat \<Rightarrow> nat \<Rightarrow> string list \<Rightarrow> (nat \<times> nat \<times> string) list" where
  "row_cells i j [] = []"
| "row_cells i j (label # rest) = (i, j, label) # row_cells i (Suc j) rest"

fun grid_cells :: "nat \<Rightarrow> string list list \<Rightarrow> (nat \<times> nat \<times> string) list" where
  "grid_cells i [] = []"
| "grid_cells i (row # rest) = row_cells i 0 row @ grid_cells (Suc i) rest"

definition cells :: "string list list \<Rightarrow> (nat \<times> nat \<times> string) list" where
  "cells grid = grid_cells 0 grid"

text \<open>The JSON value of a grid, as the field \<open>goal\<close> of the response holds it.\<close>

definition grid_json :: "string list list \<Rightarrow> json" where
  "grid_json grid = JArr (map (\<lambda>row. JArr (map JStr row)) grid)"

text \<open>
  How the traversal of a list of cells ends (at its first cell that is not placeable, if
  any), and the fact that the last entry of the log names the unrecognized attribute of
  that cell.
\<close>

definition ending :: "(nat \<times> nat \<times> string) list \<Rightarrow> control" where
  "ending cs = (case dropWhile placeable cs of [] \<Rightarrow> Proceed | c # _ \<Rightarrow> signal (snd (snd c)))"

definition bad_attr_logged :: "(nat \<times> nat \<times> string) list \<Rightarrow> state \<Rightarrow> bool" where
  "bad_attr_logged cs s =
     (\<forall>c rest a. dropWhile placeable cs = c # rest \<longrightarrow> decode (snd (snd c)) = Unrecognized a \<longrightarrow>
        logged s \<noteq> [] \<and> last (logged s) = LogError (''Invalid Soloon direction: '' @ a))"

subsection \<open>Sequences of dispatched calls\<close>

text \<open>
  A call is a method, an endpoint and the fields of the caller. \<open>run\<close> dispatches calls
  one after the other, whatever each returns or raises, and lists the state after each.
\<close>

type_synonym call = "string \<times> string \<times> (string \<times> pyval) list"

fun run :: "env \<Rightarrow> call list \<Rightarrow> state \<Rightarrow> state list" where
  "run env [] s = []"
| "run env (c # cs) s =
     (let s' = snd (handle_requests env (fst c) (fst (snd c)) (snd (snd c)) s)
      in s' # run env cs s')"

subsection \<open>Concrete inputs\<close>

text \<open>
  An environment that answers every GET with status 200 and the given body, every other
  request with the given outcome, and lets time pass as the given latencies say; two
  outcomes, a success and a connection failure; a freshly built client at time 0.
\<close>

definition example_env :: "json \<Rightarrow> outcome \<Rightarrow> (nat \<Rightarrow> nat) \<Rightarrow> env" where
  "example_env body other lat =
     \<lparr>respond = (\<lambda>n req. if req_method req = ''get''
                           then Returns \<lparr>status_code = 200, json_result = Inr body\<rparr>
                           else other),
      latency = lat\<rparr>"

definition created :: outcome where
  "created = Returns \<lparr>status_code = 200, json_result = Inr (JObj [])\<rparr>"

definition refused :: outcome where
  "refused = Raises (Exc [ConnectionError, RequestException] ''Connection refused'')"

definition example_state :: state where
  "example_state =
     \<lparr>candidate_id = ''abc'', base_url = ''https://challenge.crossmint.io/api'',
      request_delay = 600000, last_request_time = 0,
      clock = 0, tick = 0, sent = [], logged = []\<rparr>"


text \<open>\<open>str.upper\<close> on ASCII text; a text differs from it when it holds a lower-case letter.\<close>

definition str_upper :: "string \<Rightarrow> string" where
  "str_upper text = map upper_char text"

text \<open>The two goal grids of the examples of the specification.\<close>

definition example_grid :: "string list list" where
  "example_grid = [[''SPACE'', ''POLYANET''], [''RED_SOLOON'', ''UP_COMETH'']]"

definition bogus_grid :: "string list list" where
  "bogus_grid = [[''PURPLE_SOLOON'', ''BOGUS_COMETH'', ''POLYANET''], [''POLYANET'']]"

text \<open>
  An environment without network, where every request is refused; one where the first
  request takes five seconds and the second a tenth of a second; two create calls.
\<close>

definition offline :: env where
  "offline = \<lparr>respond = (\<lambda>n req. refused), latency = (\<lambda>k. 0)\<rparr>"

definition slow_then_fast :: env where
  "slow_then_fast =
     \<lparr>respond = (\<lambda>n req. created),
      latency = (\<lambda>k. if k = 3 then 5000000 else if k = 6 then 100000 else 0)\<rparr>"

definition two_calls :: "call list" where
  "two_calls =
     [(''post'', ''polyanets'', [(''row'', PInt 2), (''column'', PInt 2)]),
      (''post'', ''polyanets'', [(''row'', PInt 3), (''column'', PInt 3)])]"

text \<open>A client configured with a delay of ten thousand million seconds.\<close>

definition overlong_state :: state where
  "overlong_state = example_state\<lparr>request_delay := 10000000000000000\<rparr>"

section \<open>Properties\<close>

subsection \<open>Auxiliary facts\<close>

subsubsection \<open>The rate limiter and the dispatcher\<close>

lemma waited_fields:
  "candidate_id (waited env s) = candidate_id s"
  "base_url (waited env s) = base_url s"
  "request_delay (waited env s) = request_delay s"
  "sent (waited env s) = sent s"
  "logged (waited env s) = logged s"
  by (simp_all add: waited_def rate_time_def datetime_now_def time_sleep_def elapse_def Let_def)

lemma rate_time_can_wait:
  assumes "can_wait s"
  shows "rate_time env s = (Inr (), waited env s)"
proof -
  let ?now = "clock s + int (latency env (tick s))"
  have "?now - last_request_time s < request_delay s \<Longrightarrow>
          \<not> request_delay s - (?now - last_request_time s) < 0
          \<and> \<not> sleep_max < request_delay s - (?now - last_request_time s)"
    using assms by (simp add: can_wait_def)
  then have "fst (rate_time env s) = Inr ()"
    by (simp add: rate_time_def datetime_now_def time_sleep_def elapse_def Let_def)
  then show ?thesis by (simp add: waited_def prod_eq_iff)
qed

lemma waited_gap:
  assumes "can_wait s"
  shows "last_request_time s + request_delay s \<le> last_request_time (waited env s)"
proof -
  let ?now = "clock s + int (latency env (tick s))"
  have "?now - last_request_time s < request_delay s \<Longrightarrow>
          \<not> request_delay s - (?now - last_request_time s) < 0
          \<and> \<not> sleep_max < request_delay s - (?now - last_request_time s)"
    using assms by (simp add: can_wait_def)
  then show ?thesis
    by (simp add: waited_def rate_time_def datetime_now_def time_sleep_def elapse_def Let_def)
qed

lemma waited_clock:
  assumes "can_wait s"
  shows "last_request_time (waited env s) = clock (waited env s)"
    and "clock s \<le> clock (waited env s)"
proof -
  let ?now = "clock s + int (latency env (tick s))"
  have w: "?now - last_request_time s < request_delay s \<Longrightarrow>
          \<not> request_delay s - (?now - last_request_time s) < 0
          \<and> \<not> sleep_max < request_delay s - (?now - last_request_time s)"
    using assms by (simp add: can_wait_def)
  then show "last_request_time (waited env s) = clock (waited env s)"
    by (simp add: waited_def rate_time_def datetime_now_def time_sleep_def elapse_def Let_def)
  from w show "clock s \<le> clock (waited env s)"
    by (simp add: waited_def rate_time_def datetime_now_def time_sleep_def elapse_def Let_def)
qed

lemma waited_can_wait: "can_wait s \<Longrightarrow> can_wait (waited env s)"
  using waited_clock(1)[of s env] waited_fields(3)[of env s] by (simp add: can_wait_def)

lemma init_can_wait:
  assumes "case cfg_request_delay cfg of None \<Rightarrow> True | Some d \<Rightarrow> d \<le> sleep_max"
  shows "can_wait (init env cfg t0)"
  using assms
  by (cases "cfg_request_delay cfg")
     (simp_all add: init_def datetime_now_def elapse_def can_wait_def sleep_max_def Let_def)

lemma handle_requests_unfold:
  assumes "can_wait s"
  shows "handle_requests env method endpoint kwards s =
     (let s1 = waited env s;
          url = base_url s1 @ ''/'' @ endpoint;
          payload = dict_unpack [(''candidateId'', PStr (candidate_id s1))] kwards
      in if method \<notin> set requests_functions
         then (Inl (Exc [AttributeError] (''module requests has no attribute '' @ method)), s1)
         else
           (let (out, s2) = transport env method url payload s1;
                tried = (case out of
                           Raises e \<Rightarrow> Inl e
                         | Returns resp \<Rightarrow>
                             (case raise_for_status resp of
                                Some e \<Rightarrow> Inl e
                              | None \<Rightarrow> json_result resp))
            in case tried of
                 Inr j \<Rightarrow> (Inr (Some j), s2)
               | Inl error \<Rightarrow>
                   if isinstance error HTTPError
                     then (Inr None, logging_error (''HTTP Error: '' @ message error) s2)
                   else if isinstance error ConnectionError
                     then (Inr None, logging_error (''Error Connecting: '' @ message error) s2)
                   else if isinstance error Timeout
                     then (Inr None, logging_error (''Timeout Error: '' @ message error) s2)
                   else if isinstance error RequestException
                     then (Inr None, logging_error (''Something weird went wrong: '' @ message error) s2)
                   else (Inl error, s2)))"
  unfolding handle_requests_def rate_time_can_wait[OF assms] by (simp add: Let_def)

lemma handle_requests_raised:
  assumes "fst (rate_time env s) = Inl e"
  shows "handle_requests env method endpoint kwards s = (Inl e, waited env s)"
  using assms by (cases "rate_time env s") (simp add: handle_requests_def waited_def)

lemma rate_time_cases:
  obtains (returned) "rate_time env s = (Inr (), waited env s)"
  | (raised) e where "rate_time env s = (Inl e, waited env s)"
proof (cases "fst (rate_time env s)")
  case (Inl e)
  then have "rate_time env s = (Inl e, waited env s)" by (simp add: waited_def prod_eq_iff)
  then show ?thesis by (rule raised)
next
  case (Inr u)
  then have "rate_time env s = (Inr (), waited env s)" by (simp add: waited_def prod_eq_iff)
  then show ?thesis by (rule returned)
qed

lemma handle_requests_fields:
  assumes "handle_requests env method endpoint kwards s = (r, s')"
  shows "candidate_id s' = candidate_id s" "base_url s' = base_url s" "request_delay s' = request_delay s"
proof -
  have "candidate_id s' = candidate_id s \<and> base_url s' = base_url s \<and> request_delay s' = request_delay s"
  proof (cases env s rule: rate_time_cases)
    case returned
    with assms show ?thesis
      by (auto simp: handle_requests_def transport_def elapse_def Let_def waited_fields logging_error_def
          split: if_splits sum.splits prod.splits outcome.splits option.splits)
  next
    case (raised e)
    with assms show ?thesis
      by (auto simp: handle_requests_def waited_fields)
  qed
  then show "candidate_id s' = candidate_id s" "base_url s' = base_url s" "request_delay s' = request_delay s"
    by simp_all
qed

lemma handle_requests_sent:
  assumes "can_wait s" "method \<in> set requests_functions"
  shows "sent (snd (handle_requests env method endpoint kwards s)) = sent s @ [new_request s method endpoint kwards]"
  using assms(2) unfolding handle_requests_unfold[OF assms(1)]
  by (auto simp: transport_def elapse_def Let_def waited_fields logging_error_def new_request_def
      split: if_splits sum.splits prod.splits outcome.splits option.splits)

lemma handle_requests_returned:
  assumes "fst (handle_requests env method endpoint kwards s) = Inr r"
  shows "sent (snd (handle_requests env method endpoint kwards s)) = sent s @ [new_request s method endpoint kwards]"
proof (cases env s rule: rate_time_cases)
  case returned
  with assms show ?thesis
    by (auto simp: handle_requests_def transport_def elapse_def Let_def waited_fields logging_error_def new_request_def
        split: if_splits sum.splits prod.splits outcome.splits option.splits)
next
  case (raised e)
  with assms show ?thesis by (simp add: handle_requests_def)
qed

lemma handle_requests_can_wait:
  assumes "can_wait s"
  shows "can_wait (snd (handle_requests env method endpoint kwards s))"
proof -
  have "request_delay (snd (handle_requests env method endpoint kwards s)) = request_delay (waited env s)
      \<and> last_request_time (snd (handle_requests env method endpoint kwards s)) = last_request_time (waited env s)
      \<and> clock (waited env s) \<le> clock (snd (handle_requests env method endpoint kwards s))"
    unfolding handle_requests_unfold[OF assms]
    by (auto simp: transport_def elapse_def Let_def logging_error_def
        split: if_splits sum.splits prod.splits outcome.splits option.splits)
  then show ?thesis using waited_can_wait[OF assms, of env] by (simp add: can_wait_def)
qed

lemma handle_requests_benign:
  assumes "can_wait s" "benign env" "method \<in> set requests_functions"
  shows "\<exists>j. fst (handle_requests env method endpoint kwards s) = Inr j"
proof -
  define req where "req = new_request (waited env s) method endpoint kwards"
  have b: "benign_outcome (respond env (length (sent (waited env s))) req)"
    using assms(2) by (simp add: benign_def)
  show ?thesis
  proof (cases "respond env (length (sent (waited env s))) req")
    case (Returns resp)
    with b assms(3) show ?thesis unfolding handle_requests_unfold[OF assms(1)]
      by (auto simp: transport_def Let_def req_def new_request_def
          benign_outcome_def caught_def raise_for_status_def isinstance_def
          split: sum.splits)
  next
    case (Raises e)
    with b assms(3) show ?thesis unfolding handle_requests_unfold[OF assms(1)]
      by (auto simp: transport_def Let_def req_def new_request_def
          benign_outcome_def caught_def)
  qed
qed

lemma handle_requests_gap:
  assumes "can_wait s"
  shows "last_request_time s + request_delay s \<le> last_request_time (snd (handle_requests env method endpoint kwards s))"
  using waited_gap[OF assms, of env] unfolding handle_requests_unfold[OF assms]
  by (auto simp: transport_def elapse_def Let_def logging_error_def
      split: if_splits sum.splits prod.splits outcome.splits option.splits)

text \<open>
  Where the rate limiter cannot wait, and where a keyword collides with a parameter: the
  exception leaves the call and nothing is sent or recorded.
\<close>

lemma overlong_delay_raises:
  "fst (handle_requests offline ''post'' ''polyanets'' [] overlong_state)
     = Inl (Exc [OverflowError] ''timestamp too large to convert to C _PyTime_t'')"
  "sent (snd (handle_requests offline ''post'' ''polyanets'' [] overlong_state)) = []"
  "last_request_time (snd (handle_requests offline ''post'' ''polyanets'' [] overlong_state)) = 0"
  by (simp_all add: handle_requests_def rate_time_def datetime_now_def time_sleep_def elapse_def
      Let_def overlong_state_def example_state_def offline_def sleep_max_def)

lemma colliding_keyword_raises:
  "create_object offline ''polyanets'' 0 0 [(''method'', PStr ''get'')] example_state
     = (Inl (Exc [TypeError] ''got multiple values for an argument''), example_state)"
  by (simp add: create_object_def colliding_def)

lemma post_is_function: "''post'' \<in> set requests_functions" "''get'' \<in> set requests_functions"
  by (simp_all add: requests_functions_def)

lemma no_collision:
  "\<not> (\<exists>k \<in> set (map fst []). k \<in> set colliding)"
  "\<not> (\<exists>k \<in> set (map fst [(''color'', v)]). k \<in> set colliding)"
  "\<not> (\<exists>k \<in> set (map fst [(''direction'', v)]). k \<in> set colliding)"
  by (simp_all add: colliding_def)

lemma create_object_benign:
  assumes "can_wait s" "benign env" "\<not> (\<exists>k \<in> set (map fst kwargs). k \<in> set colliding)"
  obtains s' where "create_object env object_type row column kwargs s = (Inr (), s')"
    and "sent s' = sent s @ [create_request s object_type row column kwargs]"
    and "candidate_id s' = candidate_id s" and "base_url s' = base_url s"
    and "can_wait s'"
proof -
  let ?kw = "[(''row'', PInt row), (''column'', PInt column)] @ kwargs"
  let ?msg = "capitalize object_type @ '' successfully created''"
  obtain r s1 where h: "handle_requests env ''post'' object_type ?kw s = (r, s1)"
    by (cases "handle_requests env ''post'' object_type ?kw s")
  from handle_requests_benign[OF assms(1,2) post_is_function(1), of object_type ?kw] h
  obtain j where r: "r = Inr j" by auto
  have snt: "sent s1 = sent s @ [create_request s object_type row column kwargs]"
    using handle_requests_sent[OF assms(1) post_is_function(1), of env object_type ?kw] h
    by (simp add: create_request_def)
  have cw: "can_wait s1"
    using handle_requests_can_wait[OF assms(1), of env "''post''" object_type ?kw] h by simp
  have "create_object env object_type row column kwargs s = (Inr (), logging_info ?msg s1)"
    using h r assms(3) by (simp add: create_object_def)
  moreover have "sent (logging_info ?msg s1) = sent s @ [create_request s object_type row column kwargs]"
    using snt by (simp add: logging_info_def)
  moreover have "candidate_id (logging_info ?msg s1) = candidate_id s"
     "base_url (logging_info ?msg s1) = base_url s"
    using handle_requests_fields[OF h] by (simp_all add: logging_info_def)
  moreover have "can_wait (logging_info ?msg s1)"
    using cw by (simp add: logging_info_def can_wait_def)
  ultimately show ?thesis using that by blast
qed

subsubsection \<open>One cell\<close>

lemma label_cases:
  obtains (space) "label = ''SPACE''"
  | (polyanet) "label = ''POLYANET''"
  | (short) "label \<noteq> ''SPACE''" "label \<noteq> ''POLYANET''" "length (split label (CHR ''_'')) \<le> 1"
  | (parts) attr category rest where "label \<noteq> ''SPACE''" "label \<noteq> ''POLYANET''"
      "split label (CHR ''_'') = attr # category # rest"
proof (cases "split label (CHR ''_'')")
  case Nil
  then show ?thesis using space polyanet short by (cases "label = ''SPACE''"; cases "label = ''POLYANET''"; simp)
next
  case (Cons attr more)
  show ?thesis
  proof (cases more)
    case Nil
    with Cons show ?thesis using space polyanet short
      by (cases "label = ''SPACE''"; cases "label = ''POLYANET''"; simp)
  next
    case (Cons category rest)
    with \<open>split label (CHR ''_'') = attr # more\<close> show ?thesis using space polyanet parts
      by (cases "label = ''SPACE''"; cases "label = ''POLYANET''"; simp)
  qed
qed

lemma decode_short:
  assumes "label \<noteq> ''SPACE''" "label \<noteq> ''POLYANET''" "length (split label (CHR ''_'')) \<le> 1"
  shows "decode label = Undefined"
  using assms by (cases "split label (CHR ''_'')") (simp_all add: decode_def split: list.splits)

lemma decode_parts:
  assumes "label \<noteq> ''SPACE''" "label \<noteq> ''POLYANET''" "split label (CHR ''_'') = attr # category # rest"
  shows "decode label =
     (if category = ''COMETH''
      then (case map_of ComethDirection attr of Some d \<Rightarrow> DirectionMarker d | None \<Rightarrow> Unrecognized attr)
      else (case map_of SoloonColor attr of Some c \<Rightarrow> ColorMarker c | None \<Rightarrow> Unrecognized attr))"
  using assms by (simp add: decode_def)

lemma process_cell_parts:
  assumes "label \<noteq> ''SPACE''" "label \<noteq> ''POLYANET''" "split label (CHR ''_'') = attr # category # rest"
  shows "process_cell env i j (JStr label) s =
     (if category = ''COMETH''
      then (case map_of ComethDirection attr of
              None \<Rightarrow> (Returned, logging_error (''Invalid Soloon direction: '' @ attr) s)
            | Some d \<Rightarrow> after_call (create_object env ''comeths'' (int i) (int j) [(''direction'', PStr d)] s))
      else (case map_of SoloonColor attr of
              None \<Rightarrow> (Returned, logging_error (''Invalid Soloon direction: '' @ attr) s)
            | Some c \<Rightarrow> after_call (create_object env ''soloons'' (int i) (int j) [(''color'', PStr c)] s)))"
  using assms
  by (simp add: process_cell_def getattr_value_def create_cometh_def create_soloon_def
      split: option.splits)

lemma process_cell_str:
  assumes "can_wait s" "benign env"
  obtains s' where "process_cell env i j (JStr label) s = (signal label, s')"
    and "sent s' = sent s @ requests_of s (i, j, label)"
    and "candidate_id s' = candidate_id s" and "base_url s' = base_url s"
    and "can_wait s'"
    and "\<And>a. decode label = Unrecognized a \<Longrightarrow>
           logged s' = logged s @ [LogError (''Invalid Soloon direction: '' @ a)]"
proof (cases label rule: label_cases)
  case space
  then have "process_cell env i j (JStr label) s = (signal label, s)"
    "requests_of s (i, j, label) = []" "decode label = Empty"
    by (simp_all add: process_cell_def signal_def decode_def requests_of_def)
  then show ?thesis using that[of s] assms(1) by simp
next
  case polyanet
  obtain s' where c: "create_object env ''polyanets'' (int i) (int j) [] s = (Inr (), s')"
    and e: "sent s' = sent s @ [create_request s ''polyanets'' (int i) (int j) []]"
      "candidate_id s' = candidate_id s" "base_url s' = base_url s" "can_wait s'"
    by (rule create_object_benign[OF assms no_collision(1)])
  have d: "decode label = Point" using polyanet by (simp add: decode_def)
  have "process_cell env i j (JStr label) s = (signal label, s')"
    using polyanet c d by (simp add: process_cell_def signal_def create_polyanet_def after_call_def)
  moreover have "requests_of s (i, j, label) = [create_request s ''polyanets'' (int i) (int j) []]"
    using d by (simp add: requests_of_def)
  ultimately show ?thesis using that[of s'] e d by simp
next
  case short
  have d: "decode label = Undefined" by (rule decode_short[OF short])
  have "process_cell env i j (JStr label) s = (signal label, s)"
    using short d by (simp add: process_cell_def signal_def)
  moreover have "requests_of s (i, j, label) = []"
    using d by (simp add: requests_of_def)
  ultimately show ?thesis using that[of s] d assms(1) by simp
next
  case (parts attr category rest)
  note d = decode_parts[OF parts] and p = process_cell_parts[OF parts, of env i j s]
  let ?enum = "if category = ''COMETH'' then ComethDirection else SoloonColor"
  show ?thesis
  proof (cases "map_of ?enum attr")
    case None
    let ?s' = "logging_error (''Invalid Soloon direction: '' @ attr) s"
    have d': "decode label = Unrecognized attr" using d None by (simp split: if_splits)
    have "process_cell env i j (JStr label) s = (signal label, ?s')"
      using p None d' by (simp add: signal_def split: if_splits)
    moreover have "requests_of s (i, j, label) = []"
      using d' by (simp add: requests_of_def)
    moreover have "can_wait ?s'" using assms(1) by (simp add: logging_error_def can_wait_def)
    ultimately show ?thesis using that[of ?s'] d' by (simp add: logging_error_def)
  next
    case (Some v)
    let ?ot = "if category = ''COMETH'' then ''comeths'' else ''soloons''"
    let ?kw = "if category = ''COMETH'' then [(''direction'', PStr v)] else [(''color'', PStr v)]"
    have nc: "\<not> (\<exists>k \<in> set (map fst ?kw). k \<in> set colliding)"
      by (simp add: colliding_def)
    obtain s' where c: "create_object env ?ot (int i) (int j) ?kw s = (Inr (), s')"
      and e: "sent s' = sent s @ [create_request s ?ot (int i) (int j) ?kw]"
        "candidate_id s' = candidate_id s" "base_url s' = base_url s" "can_wait s'"
      by (rule create_object_benign[OF assms nc])
    have d': "decode label = (if category = ''COMETH'' then DirectionMarker v else ColorMarker v)"
      using d Some by (simp split: if_splits)
    have "process_cell env i j (JStr label) s = (signal label, s')"
      using p Some c d' by (simp add: signal_def after_call_def split: if_splits)
    moreover have "requests_of s (i, j, label) = [create_request s ?ot (int i) (int j) ?kw]"
      using d' by (simp add: requests_of_def)
    ultimately show ?thesis using that[of s'] e d' by (simp split: if_splits)
  qed
qed

subsubsection \<open>The two loops\<close>

lemma signal_Proceed_iff: "signal label = Proceed \<longleftrightarrow> placeable (i, j, label)"
  by (simp add: signal_def placeable_def split: decoded.splits)

lemma requests_of_unplaceable: "\<not> placeable (i, j, label) \<Longrightarrow> requests_of s (i, j, label) = []"
  by (simp add: requests_of_def placeable_def split: decoded.splits)

lemma requests_of_cong:
  "candidate_id s' = candidate_id s \<Longrightarrow> base_url s' = base_url s \<Longrightarrow> requests_of s' = requests_of s"
  by (rule ext) (simp add: requests_of_def create_request_def new_request_def
      split: prod.splits decoded.splits)

lemma control_not_proceed:
  "c \<noteq> Proceed \<Longrightarrow> (case (c, s) of (Proceed, s') \<Rightarrow> f s' | (c', s') \<Rightarrow> (c', s')) = (c, s)"
  by (cases c) simp_all

lemma ending_Proceed_iff: "ending cs = Proceed \<longleftrightarrow> (\<forall>c \<in> set cs. placeable c)"
proof (induction cs)
  case Nil
  show ?case by (simp add: ending_def)
next
  case (Cons c cs)
  obtain i j label where c: "c = (i, j, label)" by (cases c)
  show ?case using Cons signal_Proceed_iff[of label i j]
    by (auto simp: ending_def c)
qed

lemma ending_append:
  "ending (xs @ ys) = (if \<forall>c \<in> set xs. placeable c then ending ys else ending xs)"
proof (cases "\<forall>c \<in> set xs. placeable c")
  case True
  then show ?thesis by (simp add: ending_def)
next
  case False
  then obtain c where "c \<in> set xs" "\<not> placeable c" by blast
  then have "dropWhile placeable (xs @ ys) = dropWhile placeable xs @ ys"
    by (rule dropWhile_append1)
  moreover have "dropWhile placeable xs \<noteq> []"
    using False by simp
  ultimately show ?thesis unfolding if_not_P[OF False]
    by (cases "dropWhile placeable xs") (simp_all add: ending_def)
qed

lemma takeWhile_placeable_append:
  "takeWhile placeable (xs @ ys) =
     (if \<forall>c \<in> set xs. placeable c then xs @ takeWhile placeable ys else takeWhile placeable xs)"
  by auto

lemma process_cell_ex:
  assumes "can_wait s" "benign env"
  shows "\<exists>s'. process_cell env i j (JStr label) s = (signal label, s')
           \<and> sent s' = sent s @ requests_of s (i, j, label)
           \<and> candidate_id s' = candidate_id s \<and> base_url s' = base_url s
           \<and> can_wait s'
           \<and> (\<forall>a. decode label = Unrecognized a \<longrightarrow>
                 logged s' = logged s @ [LogError (''Invalid Soloon direction: '' @ a)])"
  by (rule process_cell_str[OF assms, of i j label]) blast

lemma process_row_str:
  assumes "benign env"
  shows "can_wait s \<Longrightarrow>
         \<exists>s'. process_row env i j (map JStr labels) s = (ending (row_cells i j labels), s')
           \<and> sent s' = sent s @ concat (map (requests_of s) (takeWhile placeable (row_cells i j labels)))
           \<and> candidate_id s' = candidate_id s \<and> base_url s' = base_url s
           \<and> can_wait s'
           \<and> bad_attr_logged (row_cells i j labels) s'"
proof (induction labels arbitrary: j s)
  case Nil
  then show ?case by (simp add: ending_def bad_attr_logged_def)
next
  case (Cons label rest)
  from process_cell_ex[OF Cons.prems assms, of i j label]
  obtain s1 where p: "process_cell env i j (JStr label) s = (signal label, s1)"
    and e: "sent s1 = sent s @ requests_of s (i, j, label)"
    and f: "candidate_id s1 = candidate_id s" "base_url s1 = base_url s"
    and w: "can_wait s1"
    and l: "\<And>a. decode label = Unrecognized a \<Longrightarrow>
           logged s1 = logged s @ [LogError (''Invalid Soloon direction: '' @ a)]"
    by blast
  show ?case
  proof (cases "placeable (i, j, label)")
    case True
    then have sg: "signal label = Proceed" using signal_Proceed_iff[of label i j] by simp
    from Cons.IH[OF w, of "Suc j"] obtain s' where
      r: "process_row env i (Suc j) (map JStr rest) s1 = (ending (row_cells i (Suc j) rest), s')"
      and e': "sent s' = sent s1 @ concat (map (requests_of s1) (takeWhile placeable (row_cells i (Suc j) rest)))"
      and f': "candidate_id s' = candidate_id s1" "base_url s' = base_url s1"
      and w': "can_wait s'"
      and l': "bad_attr_logged (row_cells i (Suc j) rest) s'"
      by blast
    have "process_row env i j (map JStr (label # rest)) s = (ending (row_cells i j (label # rest)), s')"
      using p sg r True by (simp add: ending_def)
    moreover have "sent s' = sent s @ concat (map (requests_of s) (takeWhile placeable (row_cells i j (label # rest))))"
      using e e' True requests_of_cong[OF f] by simp
    moreover have "bad_attr_logged (row_cells i j (label # rest)) s'"
      using l' True by (simp add: bad_attr_logged_def)
    ultimately show ?thesis using f f' w' by auto
  next
    case False
    then have sg: "signal label \<noteq> Proceed" using signal_Proceed_iff[of label i j] by simp
    have "process_row env i j (map JStr (label # rest)) s = (ending (row_cells i j (label # rest)), s1)"
      using p False control_not_proceed[OF sg] by (simp add: ending_def)
    moreover have "sent s1 = sent s @ concat (map (requests_of s) (takeWhile placeable (row_cells i j (label # rest))))"
      using e False requests_of_unplaceable[OF False] by simp
    moreover have "bad_attr_logged (row_cells i j (label # rest)) s1"
      using l False by (simp add: bad_attr_logged_def)
    ultimately show ?thesis using f w by auto
  qed
qed

lemma process_rows_str:
  assumes "benign env"
  shows "can_wait s \<Longrightarrow>
         \<exists>s'. process_rows env i (map (\<lambda>row. JArr (map JStr row)) grid) s = (ending (grid_cells i grid), s')
           \<and> sent s' = sent s @ concat (map (requests_of s) (takeWhile placeable (grid_cells i grid)))
           \<and> candidate_id s' = candidate_id s \<and> base_url s' = base_url s
           \<and> can_wait s'
           \<and> bad_attr_logged (grid_cells i grid) s'"
proof (induction grid arbitrary: i s)
  case Nil
  then show ?case by (simp add: ending_def bad_attr_logged_def)
next
  case (Cons row rest)
  from process_row_str[OF assms Cons.prems, of i 0 row] obtain s1 where
    p: "process_row env i 0 (map JStr row) s = (ending (row_cells i 0 row), s1)"
    and e: "sent s1 = sent s @ concat (map (requests_of s) (takeWhile placeable (row_cells i 0 row)))"
    and f: "candidate_id s1 = candidate_id s" "base_url s1 = base_url s"
    and w: "can_wait s1"
    and l: "bad_attr_logged (row_cells i 0 row) s1"
    by blast
  show ?case
  proof (cases "\<forall>c \<in> set (row_cells i 0 row). placeable c")
    case True
    then have sg: "ending (row_cells i 0 row) = Proceed" by (simp add: ending_Proceed_iff)
    from Cons.IH[OF w, of "Suc i"] obtain s' where
      r: "process_rows env (Suc i) (map (\<lambda>row. JArr (map JStr row)) rest) s1 = (ending (grid_cells (Suc i) rest), s')"
      and e': "sent s' = sent s1 @ concat (map (requests_of s1) (takeWhile placeable (grid_cells (Suc i) rest)))"
      and f': "candidate_id s' = candidate_id s1" "base_url s' = base_url s1"
      and w': "can_wait s'"
      and l': "bad_attr_logged (grid_cells (Suc i) rest) s'"
      by blast
    have "process_rows env i (map (\<lambda>row. JArr (map JStr row)) (row # rest)) s = (ending (grid_cells i (row # rest)), s')"
      using p sg r True by (simp add: ending_append iter_json_def)
    moreover have "sent s' = sent s @ concat (map (requests_of s) (takeWhile placeable (grid_cells i (row # rest))))"
      using e e' True requests_of_cong[OF f]
      by (simp add: takeWhile_placeable_append takeWhile_eq_all_conv[THEN iffD2])
    moreover have "bad_attr_logged (grid_cells i (row # rest)) s'"
      using l' True by (simp add: bad_attr_logged_def)
    ultimately show ?thesis using f f' w' by auto
  next
    case False
    then have sg: "ending (row_cells i 0 row) \<noteq> Proceed" by (simp add: ending_Proceed_iff)
    have en: "ending (grid_cells i (row # rest)) = ending (row_cells i 0 row)"
      and tk: "takeWhile placeable (grid_cells i (row # rest)) = takeWhile placeable (row_cells i 0 row)"
      unfolding grid_cells.simps ending_append takeWhile_placeable_append if_not_P[OF False]
      by (rule refl)+
    have "process_rows env i (map (\<lambda>row. JArr (map JStr row)) (row # rest)) s = (ending (grid_cells i (row # rest)), s1)"
      unfolding en using p control_not_proceed[OF sg] by (simp add: iter_json_def)
    moreover have "sent s1 = sent s @ concat (map (requests_of s) (takeWhile placeable (grid_cells i (row # rest))))"
      unfolding tk using e by simp
    moreover have "bad_attr_logged (grid_cells i (row # rest)) s1"
    proof -
      from False obtain c where "c \<in> set (row_cells i 0 row)" "\<not> placeable c" by blast
      then have "dropWhile placeable (row_cells i 0 row @ grid_cells (Suc i) rest)
          = dropWhile placeable (row_cells i 0 row) @ grid_cells (Suc i) rest"
        by (rule dropWhile_append1)
      moreover have "dropWhile placeable (row_cells i 0 row) \<noteq> []"
        using False by simp
      ultimately show ?thesis using l
        by (cases "dropWhile placeable (row_cells i 0 row)") (simp_all add: bad_attr_logged_def)
    qed
    ultimately show ?thesis using f w by auto
  qed
qed

subsubsection \<open>The result of a dispatch and the whole build\<close>

lemma new_request_waited: "new_request (waited env s) = new_request s"
  by (intro ext) (simp add: new_request_def waited_fields)

lemma handle_requests_result:
  assumes "can_wait s" "method \<in> set requests_functions"
  shows "fst (handle_requests env method endpoint kwards s) =
           (case attempt (respond env (length (sent s)) (new_request s method endpoint kwards)) of
              Inr j \<Rightarrow> Inr (Some j)
            | Inl e \<Rightarrow> if caught e then Inr None else Inl e)"
    and "logged (snd (handle_requests env method endpoint kwards s)) =
           (case attempt (respond env (length (sent s)) (new_request s method endpoint kwards)) of
              Inr j \<Rightarrow> logged s
            | Inl e \<Rightarrow>
                if isinstance e HTTPError then logged s @ [LogError (''HTTP Error: '' @ message e)]
                else if isinstance e ConnectionError then logged s @ [LogError (''Error Connecting: '' @ message e)]
                else if isinstance e Timeout then logged s @ [LogError (''Timeout Error: '' @ message e)]
                else if isinstance e RequestException then logged s @ [LogError (''Something weird went wrong: '' @ message e)]
                else logged s)"
  using assms(2) unfolding handle_requests_unfold[OF assms(1)]
  by (auto simp: transport_def Let_def waited_fields attempt_def
      new_request_def caught_def logging_error_def elapse_def
      split: sum.splits outcome.splits option.splits)

lemma goal_map_ok:
  assumes "can_wait s"
    and "respond env (length (sent s)) (goal_request s) = Returns resp"
    and "raise_for_status resp = None" and "json_result resp = Inr j"
  shows "\<exists>s1. goal_map env s = (Inr (Some j), s1) \<and> sent s1 = sent s @ [goal_request s]
           \<and> candidate_id s1 = candidate_id s \<and> base_url s1 = base_url s \<and> logged s1 = logged s
           \<and> can_wait s1"
proof -
  let ?ep = "''map/'' @ candidate_id s @ ''/goal''"
  obtain r s1 where h: "handle_requests env ''get'' ?ep [] s = (r, s1)"
    by (cases "handle_requests env ''get'' ?ep [] s")
  have a: "attempt (respond env (length (sent s)) (new_request s ''get'' ?ep [])) = Inr j"
    using assms(2,3,4) by (simp add: attempt_def goal_request_def)
  have "r = Inr (Some j)" "logged s1 = logged s"
    using handle_requests_result[OF assms(1) post_is_function(2), of env ?ep "[]"] h a by simp_all
  moreover have "sent s1 = sent s @ [goal_request s]"
    using handle_requests_sent[OF assms(1) post_is_function(2), of env ?ep "[]"] h by (simp add: goal_request_def)
  moreover have "can_wait s1"
    using handle_requests_can_wait[OF assms(1), of env "''get''" ?ep "[]"] h by simp
  ultimately show ?thesis using h handle_requests_fields[OF h] by (simp add: goal_map_def)
qed

lemma build_trace:
  assumes "can_wait s" "benign env"
    and "respond env (length (sent s)) (goal_request s) = Returns resp"
    and "raise_for_status resp = None" and "json_result resp = Inr (JObj d)"
    and "map_of d ''goal'' = Some (grid_json grid)"
  shows "\<exists>s2. create_crossmint_logo env s =
              ((case ending (cells grid) of Raised e \<Rightarrow> Inl e | _ \<Rightarrow> Inr ()), s2)
           \<and> sent s2 = sent s @ goal_request s # concat (map (requests_of s) (takeWhile placeable (cells grid)))
           \<and> bad_attr_logged (cells grid) s2"
proof -
  from goal_map_ok[OF assms(1,3,4,5)] obtain s1 where
    g: "goal_map env s = (Inr (Some (JObj d)), s1)" and e: "sent s1 = sent s @ [goal_request s]"
    and f: "candidate_id s1 = candidate_id s" "base_url s1 = base_url s"
    and w: "can_wait s1"
    by blast
  from process_rows_str[OF assms(2) w, of 0 grid] obtain s2 where
    p: "process_rows env 0 (map (\<lambda>row. JArr (map JStr row)) grid) s1 = (ending (grid_cells 0 grid), s2)"
    and e': "sent s2 = sent s1 @ concat (map (requests_of s1) (takeWhile placeable (grid_cells 0 grid)))"
    and l: "bad_attr_logged (grid_cells 0 grid) s2"
    by blast
  have "create_crossmint_logo env s = ((case ending (cells grid) of Raised e \<Rightarrow> Inl e | _ \<Rightarrow> Inr ()), s2)"
    using g p assms(6)
    by (simp add: create_crossmint_logo_def grid_json_def iter_json_def cells_def split: control.splits)
  moreover have "sent s2 = sent s @ goal_request s # concat (map (requests_of s) (takeWhile placeable (cells grid)))"
    using e e' requests_of_cong[OF f] by (simp add: cells_def)
  ultimately show ?thesis using l by (auto simp: cells_def)
qed

lemma benign_example:
  "benign (example_env body created lat)" "benign (example_env body refused lat)"
  by (simp_all add: benign_def benign_outcome_def example_env_def created_def refused_def caught_def isinstance_def)

lemma can_wait_example: "can_wait example_state"
  by (simp add: can_wait_def example_state_def sleep_max_def)

subsubsection \<open>Sequences of calls\<close>

lemma run_fields: "s' \<in> set (run env calls s) \<Longrightarrow> request_delay s' = request_delay s"
proof (induction calls arbitrary: s)
  case Nil then show ?case by simp
next
  case (Cons c cs)
  obtain r s1 where h: "handle_requests env (fst c) (fst (snd c)) (snd (snd c)) s = (r, s1)"
    by (cases "handle_requests env (fst c) (fst (snd c)) (snd (snd c)) s")
  with Cons show ?case using handle_requests_fields(3)[OF h] by (auto simp: Let_def)
qed

lemma run_gap:
  "can_wait s \<Longrightarrow> k < length calls \<Longrightarrow>
     request_delay s \<le> last_request_time ((s # run env calls s) ! Suc k) - last_request_time ((s # run env calls s) ! k)"
proof (induction calls arbitrary: s k)
  case Nil then show ?case by simp
next
  case (Cons c cs)
  obtain r s1 where h: "handle_requests env (fst c) (fst (snd c)) (snd (snd c)) s = (r, s1)"
    by (cases "handle_requests env (fst c) (fst (snd c)) (snd (snd c)) s")
  have r: "run env (c # cs) s = s1 # run env cs s1" using h by (simp add: Let_def)
  show ?case
  proof (cases k)
    case 0
    then show ?thesis
      using handle_requests_gap[OF Cons.prems(1), of env "fst c" "fst (snd c)" "snd (snd c)"] h r by simp
  next
    case (Suc k')
    then have "k' < length cs" using Cons.prems by simp
    moreover have "can_wait s1"
      using handle_requests_can_wait[OF Cons.prems(1), of env "fst c" "fst (snd c)" "snd (snd c)"] h by simp
    ultimately show ?thesis
      using Cons.IH[of s1 k'] Suc r handle_requests_fields(3)[OF h] by simp
  qed
qed

subsubsection \<open>The loop of the cross\<close>

lemma create_request_cong:
  "candidate_id s' = candidate_id s \<Longrightarrow> base_url s' = base_url s \<Longrightarrow> create_request s' = create_request s"
  by (intro ext) (simp add: create_request_def new_request_def)

lemma cross_body_trace:
  assumes "can_wait s" "benign env"
  shows "\<exists>s'. cross_body env i s = (Inr (), s')
          \<and> sent s' = sent s @ map (polyanet_at s) (body_points i)
          \<and> candidate_id s' = candidate_id s \<and> base_url s' = base_url s
          \<and> can_wait s'"
proof -
  obtain s1 where c1: "create_object env ''polyanets'' i i [] s = (Inr (), s1)"
    and e1: "sent s1 = sent s @ [create_request s ''polyanets'' i i []]"
    and f1: "candidate_id s1 = candidate_id s" "base_url s1 = base_url s"
    and w1: "can_wait s1"
    by (rule create_object_benign[OF assms no_collision(1)])
  obtain s2 where c2: "create_object env ''polyanets'' i (10 - i) [] s1 = (Inr (), s2)"
    and e2: "sent s2 = sent s1 @ [create_request s1 ''polyanets'' i (10 - i) []]"
    and f2: "candidate_id s2 = candidate_id s1" "base_url s2 = base_url s1"
    and w2: "can_wait s2"
    by (rule create_object_benign[OF w1 assms(2) no_collision(1)])
  consider "i = 5" | "i \<noteq> 5" "2 \<le> i \<and> i \<le> 8" | "i \<noteq> 5" "\<not> (2 \<le> i \<and> i \<le> 8)" by blast
  then show ?thesis
  proof cases
    case 1
    then show ?thesis using c1 e1 f1 w1
      by (simp add: cross_body_def create_polyanet_def body_points_def polyanet_at_def)
  next
    case 2
    then show ?thesis using c1 e1 f1 c2 e2 f2 w2 create_request_cong[OF f1]
      by (simp add: cross_body_def create_polyanet_def body_points_def polyanet_at_def)
  next
    case 3
    then show ?thesis using assms(1)
      by (auto simp: cross_body_def body_points_def)
  qed
qed

lemma cross_loop_trace:
  assumes "benign env"
  shows "can_wait s \<Longrightarrow>
         \<exists>s'. cross_loop env is s = (Inr (), s')
          \<and> sent s' = sent s @ map (polyanet_at s) (concat (map body_points is))
          \<and> candidate_id s' = candidate_id s \<and> base_url s' = base_url s"
proof (induction "is" arbitrary: s)
  case Nil
  show ?case by simp
next
  case (Cons i rest)
  from cross_body_trace[OF Cons.prems assms, of i] obtain s1 where
    b: "cross_body env i s = (Inr (), s1)" and e: "sent s1 = sent s @ map (polyanet_at s) (body_points i)"
    and f: "candidate_id s1 = candidate_id s" "base_url s1 = base_url s"
    and w: "can_wait s1"
    by blast
  from Cons.IH[OF w] obtain s' where
    l: "cross_loop env rest s1 = (Inr (), s')"
    and e': "sent s' = sent s1 @ map (polyanet_at s1) (concat (map body_points rest))"
    and f': "candidate_id s' = candidate_id s1" "base_url s' = base_url s1"
    by blast
  have "polyanet_at s1 = polyanet_at s"
    using create_request_cong[OF f] by (intro ext) (simp add: polyanet_at_def)
  then show ?case using b e f l e' f' by simp
qed

lemma cross_trace:
  assumes "can_wait s" "benign env"
  shows "fst (create_polyanet_cross env s) = Inr ()"
    and "sent (snd (create_polyanet_cross env s)) = sent s @ map (polyanet_at s) cross_points"
proof -
  have c: "concat (map body_points [0, 1, 2, 3, 4, 5, 6, 7, 8, 9, 10]) = cross_points"
    by (simp add: body_points_def cross_points_def)
  from cross_loop_trace[OF assms(2,1), of "[0, 1, 2, 3, 4, 5, 6, 7, 8, 9, 10]"]
  obtain s' where l: "cross_loop env [0, 1, 2, 3, 4, 5, 6, 7, 8, 9, 10] s = (Inr (), s')"
    and e: "sent s' = sent s @ map (polyanet_at s) (concat (map body_points [0, 1, 2, 3, 4, 5, 6, 7, 8, 9, 10]))"
    by blast
  show "fst (create_polyanet_cross env s) = Inr ()"
    unfolding create_polyanet_cross_def l by simp
  show "sent (snd (create_polyanet_cross env s)) = sent s @ map (polyanet_at s) cross_points"
    unfolding create_polyanet_cross_def l using e unfolding c by simp
qed

lemma cross_points_member:
  "(i, j) \<in> set cross_points \<longleftrightarrow> 2 \<le> i \<and> i \<le> 8 \<and> (j = i \<or> j = 10 - i)"
proof
  assume "(i, j) \<in> set cross_points"
  then have "(i, j) \<in> {(2, 2), (2, 8), (3, 3), (3, 7), (4, 4), (4, 6), (5, 5),
                   (6, 6), (6, 4), (7, 7), (7, 3), (8, 8), (8, 2)}"
    by (simp add: cross_points_def)
  then show "2 \<le> i \<and> i \<le> 8 \<and> (j = i \<or> j = 10 - i)"
    by (elim insertE emptyE) simp_all
next
  assume a: "2 \<le> i \<and> i \<le> 8 \<and> (j = i \<or> j = 10 - i)"
  then have "i = 2 \<or> i = 3 \<or> i = 4 \<or> i = 5 \<or> i = 6 \<or> i = 7 \<or> i = 8" by arith
  then show "(i, j) \<in> set cross_points"
    using a by (elim disjE) (auto simp: cross_points_def)
qed

lemma cross_points_distinct: "length cross_points = 13" "distinct cross_points"
  by (simp_all add: cross_points_def)

lemma polyanet_at_data:
  "req_data (polyanet_at s p) =
     [(''candidateId'', PStr (candidate_id s)), (''row'', PInt (fst p)), (''column'', PInt (snd p))]"
  by (simp add: polyanet_at_def create_request_def new_request_def dict_unpack_def)

lemma polyanet_at_inj: "polyanet_at s p = polyanet_at s q \<Longrightarrow> p = q"
proof -
  assume "polyanet_at s p = polyanet_at s q"
  then have "req_data (polyanet_at s p) = req_data (polyanet_at s q)" by simp
  then show "p = q" unfolding polyanet_at_data by (simp add: prod_eq_iff)
qed

subsubsection \<open>Row-major order\<close>








subsubsection \<open>Prefixes of a grid\<close>

lemma fetched_example:
  "respond (example_env body other lat) n (goal_request s) = Returns \<lparr>status_code = 200, json_result = Inr body\<rparr>"
  "raise_for_status \<lparr>status_code = 200, json_result = Inr body\<rparr> = None"
  by (simp_all add: example_env_def goal_request_def new_request_def raise_for_status_def)

lemma decode_examples:
  "decode ''SPACE'' = Empty" "decode ''POLYANET'' = Point"
  "decode ''RED_SOLOON'' = ColorMarker ''red''" "decode ''UP_COMETH'' = DirectionMarker ''up''"
  "decode ''PURPLE_SOLOON'' = ColorMarker ''purple''" "decode ''BOGUS_COMETH'' = Unrecognized ''BOGUS''"
  by (simp_all add: decode_def SoloonColor_def ComethDirection_def)

lemma decode_Empty_iff: "decode label = Empty \<longleftrightarrow> label = ''SPACE''"
proof (cases label rule: label_cases)
  case space then show ?thesis by (simp add: decode_def)
next
  case polyanet then show ?thesis by (simp add: decode_def)
next
  case short then show ?thesis using decode_short[OF short] by simp
next
  case (parts attr category rest)
  then show ?thesis using decode_parts[OF parts] by (simp split: option.splits)
qed

lemma placeable_one_request:
  "placeable (i, j, label) \<Longrightarrow> length (requests_of s (i, j, label)) = (if label = ''SPACE'' then 0 else 1)"
  using decode_Empty_iff[of label]
  by (cases "decode label") (simp_all add: placeable_def requests_of_def)

lemma build_prefix:
  assumes "can_wait s" "benign env"
    and "respond env (length (sent s)) (goal_request s) = Returns resp"
    and "raise_for_status resp = None" and "json_result resp = Inr (JObj d)"
    and "map_of d ''goal'' = Some (grid_json grid)"
    and "cells grid = before @ rest" and "\<forall>c \<in> set before. placeable c"
    and "rest = [] \<or> \<not> placeable (hd rest)"
  shows "fst (create_crossmint_logo env s) = (case ending rest of Raised e \<Rightarrow> Inl e | _ \<Rightarrow> Inr ())"
    and "sent (snd (create_crossmint_logo env s)) = sent s @ goal_request s # concat (map (requests_of s) before)"
    and "bad_attr_logged rest (snd (create_crossmint_logo env s))"
proof -
  from build_trace[OF assms(1-6)] obtain s2 where
    r: "create_crossmint_logo env s = ((case ending (cells grid) of Raised e \<Rightarrow> Inl e | _ \<Rightarrow> Inr ()), s2)"
    and e: "sent s2 = sent s @ goal_request s # concat (map (requests_of s) (takeWhile placeable (cells grid)))"
    and l: "bad_attr_logged (cells grid) s2"
    by blast
  have d: "dropWhile placeable rest = rest" using assms(9) by (cases rest) auto
  have t: "takeWhile placeable rest = []" using assms(9) by (cases rest) auto
  have en: "ending (cells grid) = ending rest"
    using assms(7,8) by (simp add: ending_append)
  have tk: "takeWhile placeable (cells grid) = before"
    using assms(7,8) t by (simp add: takeWhile_placeable_append)
  have dr: "dropWhile placeable (cells grid) = dropWhile placeable rest"
    using assms(7,8) by simp
  show "fst (create_crossmint_logo env s) = (case ending rest of Raised e \<Rightarrow> Inl e | _ \<Rightarrow> Inr ())"
    using r en by simp
  show "sent (snd (create_crossmint_logo env s)) = sent s @ goal_request s # concat (map (requests_of s) before)"
    using r e tk by simp
  show "bad_attr_logged rest (snd (create_crossmint_logo env s))"
    using r l dr by (simp add: bad_attr_logged_def)
qed

subsubsection \<open>Names of members\<close>

lemma member_names_upper:
  "str_upper ''BLUE'' = ''BLUE''" "str_upper ''RED'' = ''RED''" "str_upper ''PURPLE'' = ''PURPLE''"
  "str_upper ''WHITE'' = ''WHITE''" "str_upper ''UP'' = ''UP''" "str_upper ''DOWN'' = ''DOWN''"
  "str_upper ''RIGHT'' = ''RIGHT''" "str_upper ''LEFT'' = ''LEFT''"
  by code_simp+

lemma color_names:
  "getattr_value SoloonColor text \<noteq> None \<longleftrightarrow> text \<in> {''BLUE'', ''RED'', ''PURPLE'', ''WHITE''}"
  by (simp add: getattr_value_def SoloonColor_def)

lemma direction_names:
  "getattr_value ComethDirection text \<noteq> None \<longleftrightarrow> text \<in> {''UP'', ''DOWN'', ''RIGHT'', ''LEFT''}"
  by (simp add: getattr_value_def ComethDirection_def)

lemma other_case_unrecognized:
  assumes "str_upper text \<noteq> text"
  shows "map_of SoloonColor text = None" "map_of ComethDirection text = None"
proof -
  have a: "text \<in> {''BLUE'', ''RED'', ''PURPLE'', ''WHITE''} \<Longrightarrow> str_upper text = text"
    by (elim insertE emptyE) (simp_all only: member_names_upper)
  have b: "text \<in> {''UP'', ''DOWN'', ''RIGHT'', ''LEFT''} \<Longrightarrow> str_upper text = text"
    by (elim insertE emptyE) (simp_all only: member_names_upper)
  show "map_of SoloonColor text = None"
    using a assms color_names[of "text"] unfolding getattr_value_def by blast
  show "map_of ComethDirection text = None"
    using b assms direction_names[of "text"] unfolding getattr_value_def by blast
qed

lemma split_plain:
  "split ''SPACE'' (CHR ''_'') = [''SPACE'']" "split ''POLYANET'' (CHR ''_'') = [''POLYANET'']"
  by simp_all

lemma parts_not_plain:
  assumes "split label (CHR ''_'') = attr # category # rest"
  shows "label \<noteq> ''SPACE''" "label \<noteq> ''POLYANET''"
proof -
  show "label \<noteq> ''SPACE''"
  proof
    assume "label = ''SPACE''"
    then have "split label (CHR ''_'') = [''SPACE'']" by (simp only: split_plain)
    with assms show False by simp
  qed
  show "label \<noteq> ''POLYANET''"
  proof
    assume "label = ''POLYANET''"
    then have "split label (CHR ''_'') = [''POLYANET'']" by (simp only: split_plain)
    with assms show False by simp
  qed
qed

subsubsection \<open>Request bodies and time\<close>

lemma dict_unpack_map_of: "map_of (dict_unpack d kwards) = map_of d ++ map_of (rev kwards)"
  unfolding dict_unpack_def
proof (induction kwards arbitrary: d)
  case Nil show ?case by simp
next
  case (Cons kv rest)
  show ?case
    by (rule ext) (simp add: Cons update_conv' map_add_def split: option.splits)
qed

lemma dict_unpack_keys: "fst ` set (dict_unpack d kwards) = fst ` set d \<union> fst ` set kwards"
  unfolding dict_unpack_def
  by (induction kwards arbitrary: d) (auto simp: dom_update)

lemma map_of_rev_distinct: "distinct (map fst xs) \<Longrightarrow> map_of (rev xs) = map_of xs"
  by (subst map_of_inject_set) (simp_all add: rev_map[symmetric])

lemma handle_requests_clock:
  assumes "can_wait s" "method \<in> set requests_functions"
  shows "clock (snd (handle_requests env method endpoint kwards s))
           = clock (waited env s) + int (latency env (tick (waited env s)))"
    and "tick (snd (handle_requests env method endpoint kwards s)) = Suc (tick (waited env s))"
    and "last_request_time (snd (handle_requests env method endpoint kwards s)) = clock (waited env s)"
  using assms(2) waited_clock(1)[OF assms(1), of env] unfolding handle_requests_unfold[OF assms(1)]
  by (auto simp: transport_def Let_def logging_error_def elapse_def
      split: sum.splits outcome.splits option.splits)

lemma waited_steps:
  assumes "can_wait s"
  shows "clock (waited env s) =
     (let now = clock s + int (latency env (tick s)) in
      if now - last_request_time s < request_delay s
      then now + (request_delay s - (now - last_request_time s)) + int (latency env (Suc (tick s)))
             + int (latency env (Suc (Suc (tick s))))
      else now + int (latency env (Suc (tick s))))"
  and "tick (waited env s) =
     (if clock s + int (latency env (tick s)) - last_request_time s < request_delay s
      then Suc (Suc (Suc (tick s))) else Suc (Suc (tick s)))"
proof -
  let ?now = "clock s + int (latency env (tick s))"
  have w: "?now - last_request_time s < request_delay s \<Longrightarrow>
          \<not> request_delay s - (?now - last_request_time s) < 0
          \<and> \<not> sleep_max < request_delay s - (?now - last_request_time s)"
    using assms by (simp add: can_wait_def)
  then show "clock (waited env s) =
     (let now = clock s + int (latency env (tick s)) in
      if now - last_request_time s < request_delay s
      then now + (request_delay s - (now - last_request_time s)) + int (latency env (Suc (tick s)))
             + int (latency env (Suc (Suc (tick s))))
      else now + int (latency env (Suc (tick s))))"
    by (simp add: waited_def rate_time_def datetime_now_def time_sleep_def elapse_def Let_def)
  from w show "tick (waited env s) =
     (if clock s + int (latency env (tick s)) - last_request_time s < request_delay s
      then Suc (Suc (Suc (tick s))) else Suc (Suc (tick s)))"
    by (simp add: waited_def rate_time_def datetime_now_def time_sleep_def elapse_def Let_def)
qed


subsection \<open>The cross\<close>

text \<open>
  Claim C1, as the code has it. In a state where the rate limiter can wait, with an
  environment whose failures the dispatcher catches,
  \<open>create_polyanet_cross\<close> returns normally after exactly thirteen requests, one for each
  of thirteen distinct positions, in the order of \<open>cross_points\<close>: a Polyanet at \<open>(i, i)\<close>
  for every \<open>i\<close> from 2 to 8, and one at \<open>(i, 10 - i)\<close> for every such \<open>i\<close> other than 5.
  The rows 0, 1, 9 and 10 get no point.
\<close>

theorem cross_places_thirteen:
  assumes "can_wait s" "benign env"
  shows "fst (create_polyanet_cross env s) = Inr ()
       \<and> sent (snd (create_polyanet_cross env s)) = sent s @ map (polyanet_at s) cross_points
       \<and> length cross_points = 13 \<and> distinct cross_points
       \<and> (\<forall>i j. (i, j) \<in> set cross_points \<longleftrightarrow> 2 \<le> i \<and> i \<le> 8 \<and> (j = i \<or> j = 10 - i))"
  using cross_trace[OF assms] cross_points_member cross_points_distinct
  by blast

text \<open>The same with every request refused by the network.\<close>

theorem cross_places_thirteen_witness:
  "can_wait example_state \<and> benign (example_env JNull refused (\<lambda>k. 0))
   \<and> sent (snd (create_polyanet_cross (example_env JNull refused (\<lambda>k. 0)) example_state))
       = sent example_state @ map (polyanet_at example_state) cross_points"
  using cross_places_thirteen[OF can_wait_example benign_example(2)[of JNull "\<lambda>k. 0"]]
    benign_example(2)[of JNull "\<lambda>k. 0"] can_wait_example
  by blast

text \<open>
  Claim C1 as the specification words it, seventeen points with one at \<open>(i, i)\<close> for every
  \<open>i\<close> from 0 to 10, fails: with every request succeeding the cross is thirteen requests
  long and none of them is for the corner \<open>(0, 0)\<close>.
\<close>

theorem cross_not_seventeen:
  "length (sent (snd (create_polyanet_cross (example_env JNull created (\<lambda>k. 0)) example_state))) = 13
   \<and> polyanet_at example_state (0, 0)
        \<notin> set (sent (snd (create_polyanet_cross (example_env JNull created (\<lambda>k. 0)) example_state)))"
proof -
  have e: "sent (snd (create_polyanet_cross (example_env JNull created (\<lambda>k. 0)) example_state))
      = map (polyanet_at example_state) cross_points"
    using cross_trace(2)[OF can_wait_example benign_example(1)[of JNull "\<lambda>k. 0"]]
    by (simp add: example_state_def)
  have "(0, 0) \<notin> set cross_points" using cross_points_member[of 0 0] by simp
  then have "polyanet_at example_state (0, 0) \<notin> set (map (polyanet_at example_state) cross_points)"
    using polyanet_at_inj by fastforce
  then show ?thesis unfolding e using cross_points_distinct(1) by simp
qed

subsection \<open>Creating twice\<close>

text \<open>
  Claim C9. Nothing remembers what was created. In a state where the rate limiter can
  wait, a create operation whose keywords do not have the name of a parameter hands
  exactly one request to the transport, whatever becomes of it, and the same operation
  issued again hands over the same request a second time. So do the three typed
  operations, for a Polyanet, a Soloon and a Cometh, at every position.
\<close>

theorem create_twice_two_requests:
  assumes "can_wait s" and "\<not> (\<exists>k \<in> set (map fst kwargs). k \<in> set colliding)"
  shows "sent (snd (create_object env object_type row column kwargs s))
           = sent s @ [create_request s object_type row column kwargs]
       \<and> sent (snd (create_object env object_type row column kwargs
                  (snd (create_object env object_type row column kwargs s))))
           = sent s @ [create_request s object_type row column kwargs,
                       create_request s object_type row column kwargs]
       \<and> sent (snd (create_polyanet env row column (snd (create_polyanet env row column s))))
           = sent s @ [create_request s ''polyanets'' row column [],
                       create_request s ''polyanets'' row column []]
       \<and> sent (snd (create_soloon env row column color (snd (create_soloon env row column color s))))
           = sent s @ [create_request s ''soloons'' row column [(''color'', PStr color)],
                       create_request s ''soloons'' row column [(''color'', PStr color)]]
       \<and> sent (snd (create_cometh env row column direction (snd (create_cometh env row column direction s))))
           = sent s @ [create_request s ''comeths'' row column [(''direction'', PStr direction)],
                       create_request s ''comeths'' row column [(''direction'', PStr direction)]]"
proof -
  have twice: "sent (snd (create_object env ot row column kw s))
           = sent s @ [create_request s ot row column kw]
       \<and> sent (snd (create_object env ot row column kw (snd (create_object env ot row column kw s))))
           = sent s @ [create_request s ot row column kw, create_request s ot row column kw]"
    if nc: "\<not> (\<exists>k \<in> set (map fst kw). k \<in> set colliding)" for ot kw
  proof -
    have one: "sent (snd (create_object env ot row column kw t))
           = sent t @ [create_request t ot row column kw]
         \<and> create_request (snd (create_object env ot row column kw t)) = create_request t
         \<and> can_wait (snd (create_object env ot row column kw t))"
      if w: "can_wait t" for t
    proof -
      let ?kw = "[(''row'', PInt row), (''column'', PInt column)] @ kw"
      let ?t' = "snd (create_object env ot row column kw t)"
      obtain r t1 where h: "handle_requests env ''post'' ot ?kw t = (r, t1)"
        by (cases "handle_requests env ''post'' ot ?kw t")
      have snt: "sent t1 = sent t @ [create_request t ot row column kw]"
        using handle_requests_sent[OF w post_is_function(1), of env ot ?kw] h
        by (simp add: create_request_def)
      have cw: "can_wait t1"
        using handle_requests_can_wait[OF w, of env "''post''" ot ?kw] h by simp
      have 1: "sent ?t' = sent t @ [create_request t ot row column kw]"
        using h snt nc by (cases r) (simp_all add: create_object_def logging_info_def)
      have "candidate_id ?t' = candidate_id t" "base_url ?t' = base_url t"
        using h handle_requests_fields[OF h] nc
        by (cases r; simp add: create_object_def logging_info_def)+
      then have 2: "create_request ?t' = create_request t"
        by (rule create_request_cong)
      have 3: "can_wait ?t'"
        using h cw nc by (cases r) (simp_all add: create_object_def logging_info_def can_wait_def)
      show ?thesis using 1 2 3 by blast
    qed
    note first = one[OF assms(1)]
    note second = one[OF first[THEN conjunct2, THEN conjunct2]]
    show ?thesis
      using first[THEN conjunct1] second[THEN conjunct1] first[THEN conjunct2, THEN conjunct1]
      by simp
  qed
  show ?thesis
    using twice[OF assms(2), of object_type] twice[OF no_collision(1), of "''polyanets''"]
      twice[OF no_collision(2)[of "PStr color"], of "''soloons''"]
      twice[OF no_collision(3)[of "PStr direction"], of "''comeths''"]
    unfolding create_polyanet_def create_soloon_def create_cometh_def
    by blast
qed

text \<open>A Soloon created twice at (1, 0), without network.\<close>

theorem create_twice_two_requests_witness:
  "sent (snd (create_object offline ''soloons'' 1 0 [(''color'', PStr ''red'')]
             (snd (create_object offline ''soloons'' 1 0 [(''color'', PStr ''red'')] example_state))))
     = [create_request example_state ''soloons'' 1 0 [(''color'', PStr ''red'')],
        create_request example_state ''soloons'' 1 0 [(''color'', PStr ''red'')]]"
proof -
  have e: "sent example_state = []" by (simp add: example_state_def)
  show ?thesis
    using create_twice_two_requests[OF can_wait_example no_collision(2)[of "PStr ''red''"],
        where env = offline and object_type = "''soloons''" and row = 1 and column = 0,
        THEN conjunct2, THEN conjunct1]
    unfolding e append_Nil .
qed

subsection \<open>The builder on a fetched grid\<close>

text \<open>
  The theorems below share their first hypotheses: the rate limiter can wait in the
  state, the failures of the environment are of the kinds the dispatcher catches, and the
  GET of the goal map is answered without error status by a JSON object whose field
  \<open>goal\<close> is the grid.
\<close>



text \<open>
  Claim C3. When the cells before a position are all placeable and the label at the
  position has, in two parts or more, a direction (for a second part \<open>COMETH\<close>) or a
  color (otherwise) that names no member of the enumeration, the builder returns without
  exception, the requests of the cells before the position have all been sent in order,
  no request is sent for the position or for any cell after it, and the last entry of the
  log is the error that names the attribute.
\<close>

theorem builder_aborts_at_unrecognized:
  assumes "can_wait s" "benign env"
    and "respond env (length (sent s)) (goal_request s) = Returns resp"
    and "raise_for_status resp = None" and "json_result resp = Inr (JObj d)"
    and "map_of d ''goal'' = Some (grid_json grid)"
    and "cells grid = before @ (i, j, label) # rest"
    and "\<forall>c \<in> set before. placeable c"
    and "decode label = Unrecognized attr"
  shows "fst (create_crossmint_logo env s) = Inr ()
       \<and> sent (snd (create_crossmint_logo env s)) =
           sent s @ goal_request s # concat (map (requests_of s) before)
       \<and> last (logged (snd (create_crossmint_logo env s))) = LogError (''Invalid Soloon direction: '' @ attr)"
proof -
  have np: "\<not> placeable (i, j, label)" using assms(9) by (simp add: placeable_def)
  then have h: "(i, j, label) # rest = [] \<or> \<not> placeable (hd ((i, j, label) # rest))" by simp
  have en: "ending ((i, j, label) # rest) = Returned"
    using np assms(9) by (simp add: ending_def signal_def)
  from build_prefix[OF assms(1-6) assms(7) assms(8) h] en np assms(9)
  show ?thesis by (simp add: bad_attr_logged_def)
qed

text \<open>
  The grid of the specification: \<open>PURPLE_SOLOON\<close> at (0, 0), \<open>BOGUS_COMETH\<close> at (0, 1), and
  two more Polyanets after them. Only the Soloon is created.
\<close>

theorem builder_aborts_at_unrecognized_witness:
  "fst (create_crossmint_logo (example_env (JObj [(''goal'', grid_json bogus_grid)]) created (\<lambda>k. 0)) example_state) = Inr ()
   \<and> sent (snd (create_crossmint_logo (example_env (JObj [(''goal'', grid_json bogus_grid)]) created (\<lambda>k. 0)) example_state))
       = [goal_request example_state,
          create_request example_state ''soloons'' 0 0 [(''color'', PStr ''purple'')]]
   \<and> last (logged (snd (create_crossmint_logo (example_env (JObj [(''goal'', grid_json bogus_grid)]) created (\<lambda>k. 0)) example_state)))
       = LogError ''Invalid Soloon direction: BOGUS''"
proof -
  let ?body = "JObj [(''goal'', grid_json bogus_grid)]"
  have g: "map_of [(''goal'', grid_json bogus_grid)] ''goal'' = Some (grid_json bogus_grid)" by simp
  have c: "cells bogus_grid = [(0, 0, ''PURPLE_SOLOON'')] @ (0, 1, ''BOGUS_COMETH'') # [(0, 2, ''POLYANET''), (1, 0, ''POLYANET'')]"
    by (simp add: bogus_grid_def cells_def)
  have p: "\<forall>c \<in> set [(0::nat, 0::nat, ''PURPLE_SOLOON'')]. placeable c"
    by (simp add: placeable_def decode_examples)
  from builder_aborts_at_unrecognized[OF can_wait_example benign_example(1) fetched_example(1) fetched_example(2) _ g c p decode_examples(6),
      of ?body "\<lambda>k. 0"]
  show ?thesis by (simp add: example_state_def requests_of_def decode_examples)
qed

text \<open>
  Claim C8. On a grid all of whose cells are placeable (each label is \<open>SPACE\<close>,
  \<open>POLYANET\<close>, or has two parts or more with a recognized attribute), whatever requests
  fail, the builder returns normally after the whole traversal: the requests sent after
  the fetch are those of all the cells in row-major order, none for a SPACE cell and one
  for every other cell.
\<close>

theorem builder_completes_despite_failures:
  assumes "can_wait s" "benign env"
    and "respond env (length (sent s)) (goal_request s) = Returns resp"
    and "raise_for_status resp = None" and "json_result resp = Inr (JObj d)"
    and "map_of d ''goal'' = Some (grid_json grid)"
    and "\<forall>c \<in> set (cells grid). placeable c"
  shows "fst (create_crossmint_logo env s) = Inr ()
       \<and> sent (snd (create_crossmint_logo env s)) =
           sent s @ goal_request s # concat (map (requests_of s) (cells grid))
       \<and> (\<forall>c \<in> set (cells grid). length (requests_of s c) = (if snd (snd c) = ''SPACE'' then 0 else 1))"
proof -
  have "\<forall>c \<in> set (cells grid). length (requests_of s c) = (if snd (snd c) = ''SPACE'' then 0 else 1)"
  proof
    fix c assume "c \<in> set (cells grid)"
    with assms(7) have "placeable c" by blast
    then show "length (requests_of s c) = (if snd (snd c) = ''SPACE'' then 0 else 1)"
      using placeable_one_request[of "fst c" "fst (snd c)" "snd (snd c)" s] by simp
  qed
  with build_prefix(1,2)[OF assms(1-6), of "cells grid" "[]"] assms(7)
  show ?thesis by (simp add: ending_def)
qed

text \<open>The example grid, with every create request refused by the network.\<close>

theorem builder_completes_despite_failures_witness:
  "sent (snd (create_crossmint_logo (example_env (JObj [(''goal'', grid_json example_grid)]) refused (\<lambda>k. 0)) example_state))
       = [goal_request example_state,
          create_request example_state ''polyanets'' 0 1 [],
          create_request example_state ''soloons'' 1 0 [(''color'', PStr ''red'')],
          create_request example_state ''comeths'' 1 1 [(''direction'', PStr ''up'')]]
   \<and> fst (create_crossmint_logo (example_env (JObj [(''goal'', grid_json example_grid)]) refused (\<lambda>k. 0)) example_state) = Inr ()"
proof -
  let ?body = "JObj [(''goal'', grid_json example_grid)]"
  let ?env = "example_env ?body refused (\<lambda>k. 0)"
  have g: "map_of [(''goal'', grid_json example_grid)] ''goal'' = Some (grid_json example_grid)" by simp
  have c: "cells example_grid = [(0, 0, ''SPACE''), (0, 1, ''POLYANET''), (1, 0, ''RED_SOLOON''), (1, 1, ''UP_COMETH'')]"
    by (simp add: example_grid_def cells_def)
  have p: "\<forall>c \<in> set (cells example_grid). placeable c"
    unfolding c by (simp add: placeable_def decode_examples)
  from builder_completes_despite_failures[OF can_wait_example benign_example(2) fetched_example(1) fetched_example(2) _ g p,
      of ?body "\<lambda>k. 0"]
  show ?thesis unfolding c by (simp add: example_state_def requests_of_def decode_examples)
qed

subsection \<open>Recognizing attributes\<close>

text \<open>
  Claim C10. The lookup of a color succeeds exactly for the four names BLUE, RED, PURPLE
  and WHITE, the lookup of a direction exactly for UP, DOWN, RIGHT and LEFT. A label of
  two parts or more whose first part is not in upper case is unrecognized: the body of the
  loop logs the error and returns, which leaves both loops, without any request.
\<close>

theorem attribute_names_case_sensitive:
  "(getattr_value SoloonColor name \<noteq> None \<longleftrightarrow> name \<in> {''BLUE'', ''RED'', ''PURPLE'', ''WHITE''})
   \<and> (getattr_value ComethDirection name \<noteq> None \<longleftrightarrow> name \<in> {''UP'', ''DOWN'', ''RIGHT'', ''LEFT''})
   \<and> (split label (CHR ''_'') = attr # category # rest \<and> str_upper attr \<noteq> attr \<longrightarrow>
         decode label = Unrecognized attr
         \<and> process_cell env i j (JStr label) s =
             (Returned, logging_error (''Invalid Soloon direction: '' @ attr) s)
         \<and> process_rows env i (JArr (JStr label # cells_after) # rows_after) s =
             (Returned, logging_error (''Invalid Soloon direction: '' @ attr) s))"
proof (intro conjI impI)
  show "getattr_value SoloonColor name \<noteq> None \<longleftrightarrow> name \<in> {''BLUE'', ''RED'', ''PURPLE'', ''WHITE''}"
    by (rule color_names)
  show "getattr_value ComethDirection name \<noteq> None \<longleftrightarrow> name \<in> {''UP'', ''DOWN'', ''RIGHT'', ''LEFT''}"
    by (rule direction_names)
next
  assume a: "split label (CHR ''_'') = attr # category # rest \<and> str_upper attr \<noteq> attr"
  then have sp: "split label (CHR ''_'') = attr # category # rest" and up: "str_upper attr \<noteq> attr"
    by blast+
  note n = parts_not_plain[OF sp] and u = other_case_unrecognized[OF up]
  show d: "decode label = Unrecognized attr"
    unfolding decode_parts[OF n sp] u by simp
  have c: "\<And>j. process_cell env i j (JStr label) s =
             (Returned, logging_error (''Invalid Soloon direction: '' @ attr) s)"
    unfolding process_cell_parts[OF n sp] u by simp
  show "process_cell env i j (JStr label) s =
             (Returned, logging_error (''Invalid Soloon direction: '' @ attr) s)"
    by (rule c)
  show "process_rows env i (JArr (JStr label # cells_after) # rows_after) s =
             (Returned, logging_error (''Invalid Soloon direction: '' @ attr) s)"
    by (simp add: iter_json_def c)
qed

text \<open>The labels \<open>up_COMETH\<close> and \<open>Red_SOLOON\<close>.\<close>

theorem attribute_names_case_sensitive_witness:
  "process_cell (example_env JNull created (\<lambda>k. 0)) 0 0 (JStr ''up_COMETH'') example_state =
      (Returned, logging_error ''Invalid Soloon direction: up'' example_state)
   \<and> process_cell (example_env JNull created (\<lambda>k. 0)) 0 0 (JStr ''Red_SOLOON'') example_state =
      (Returned, logging_error ''Invalid Soloon direction: Red'' example_state)
   \<and> getattr_value ComethDirection ''up'' = None \<and> getattr_value SoloonColor ''Red'' = None"
proof -
  have u: "str_upper ''up'' \<noteq> ''up''" "str_upper ''Red'' \<noteq> ''Red''" by code_simp+
  have s: "split ''up_COMETH'' (CHR ''_'') = ''up'' # ''COMETH'' # []"
    "split ''Red_SOLOON'' (CHR ''_'') = ''Red'' # ''SOLOON'' # []" by simp_all
  note a = attribute_names_case_sensitive[where name = "''up''" and label = "''up_COMETH''"
      and attr = "''up''" and category = "''COMETH''" and rest = "[]"
      and env = "example_env JNull created (\<lambda>k. 0)" and i = 0 and j = 0 and s = example_state]
  note b = attribute_names_case_sensitive[where name = "''Red''" and label = "''Red_SOLOON''"
      and attr = "''Red''" and category = "''SOLOON''" and rest = "[]"
      and env = "example_env JNull created (\<lambda>k. 0)" and i = 0 and j = 0 and s = example_state]
  have 1: "process_cell (example_env JNull created (\<lambda>k. 0)) 0 0 (JStr ''up_COMETH'') example_state =
      (Returned, logging_error (''Invalid Soloon direction: '' @ ''up'') example_state)"
    using a[THEN conjunct2, THEN conjunct2, THEN mp, OF conjI, OF s(1) u(1)]
    by (rule conjunct2[THEN conjunct1])
  have 2: "process_cell (example_env JNull created (\<lambda>k. 0)) 0 0 (JStr ''Red_SOLOON'') example_state =
      (Returned, logging_error (''Invalid Soloon direction: '' @ ''Red'') example_state)"
    using b[THEN conjunct2, THEN conjunct2, THEN mp, OF conjI, OF s(2) u(2)]
    by (rule conjunct2[THEN conjunct1])
  have 3: "getattr_value ComethDirection ''up'' = None"
    using a[THEN conjunct2, THEN conjunct1] by simp
  have 4: "getattr_value SoloonColor ''Red'' = None"
    using b[THEN conjunct1] by simp
  have 5: "''Invalid Soloon direction: '' @ ''up'' = ''Invalid Soloon direction: up''"
    "''Invalid Soloon direction: '' @ ''Red'' = ''Invalid Soloon direction: Red''" by simp_all
  show ?thesis using 1 2 3 4 unfolding 5 by (intro conjI)
qed

subsection \<open>The dispatcher\<close>

text \<open>
  Claim C4, as the code has it. The clock never runs backwards and a wait lasts at least
  as long as asked: both are built into the environment. Let the rate limiter be able to
  wait: the configured delay is at most the longest wait \<open>time.sleep\<close> accepts, and the
  timestamp the state holds is not in the future. Then the rate limiter returns without
  exception, and it reads its timestamp after any wait, when it returns, which is before
  the request is handed to the transport. In every sequence of dispatched calls, the
  timestamp recorded for a call is at least the configured delay after the one recorded
  before it (for the first call, after the one the state held). The interval is measured
  between the moments the calls are issued.
\<close>

theorem rate_limit_gap:
  assumes "can_wait s"
  shows "fst (rate_time env s) = Inr ()
       \<and> last_request_time (snd (rate_time env s)) = clock (snd (rate_time env s))
       \<and> (\<forall>k. k < length calls \<longrightarrow>
             request_delay s \<le> last_request_time ((s # run env calls s) ! Suc k)
                                - last_request_time ((s # run env calls s) ! k))"
proof -
  have 1: "fst (rate_time env s) = Inr ()"
    by (simp add: rate_time_can_wait[OF assms])
  have 2: "last_request_time (snd (rate_time env s)) = clock (snd (rate_time env s))"
    using waited_clock(1)[OF assms, of env] by (simp add: waited_def)
  have 3: "\<forall>k. k < length calls \<longrightarrow>
             request_delay s \<le> last_request_time ((s # run env calls s) ! Suc k)
                                - last_request_time ((s # run env calls s) ! k)"
    using run_gap[OF assms, of _ calls env] by blast
  show ?thesis using 1 2 3 by (intro conjI)
qed

text \<open>Two calls, the first answered after five seconds.\<close>

theorem rate_limit_gap_witness:
  "can_wait example_state
   \<and> request_delay example_state
     \<le> last_request_time ((example_state # run slow_then_fast two_calls example_state) ! Suc 1)
       - last_request_time ((example_state # run slow_then_fast two_calls example_state) ! 1)"
proof -
  have "(1::nat) < length two_calls" by (simp add: two_calls_def)
  with rate_limit_gap[OF can_wait_example, of slow_then_fast two_calls, THEN conjunct2, THEN conjunct2]
  have "request_delay example_state
     \<le> last_request_time ((example_state # run slow_then_fast two_calls example_state) ! Suc 1)
       - last_request_time ((example_state # run slow_then_fast two_calls example_state) ! 1)"
    by blast
  with can_wait_example show ?thesis by (rule conjI)
qed

text \<open>
  Claim C4 as the specification words it, with the interval measured between
  completions, fails. With a delay of 0.6 seconds, a first request that takes five seconds
  and a second that takes a tenth of a second: the calls are issued five seconds apart
  and complete a tenth of a second apart.
\<close>

theorem completions_closer_than_delay:
  "clock (run slow_then_fast two_calls example_state ! 1)
     - clock (run slow_then_fast two_calls example_state ! 0) = 100000
   \<and> request_delay example_state = 600000
   \<and> last_request_time (run slow_then_fast two_calls example_state ! 1)
     - last_request_time (run slow_then_fast two_calls example_state ! 0) = 5000000"
proof -
  let ?k1 = "[(''row'', PInt 2), (''column'', PInt 2)]"
  let ?k2 = "[(''row'', PInt 3), (''column'', PInt 3)]"
  let ?s1 = "snd (handle_requests slow_then_fast ''post'' ''polyanets'' ?k1 example_state)"
  let ?s2 = "snd (handle_requests slow_then_fast ''post'' ''polyanets'' ?k2 ?s1)"
  have r: "run slow_then_fast two_calls example_state = [?s1, ?s2]"
    by (simp add: two_calls_def Let_def)
  have w1: "can_wait ?s1"
    by (rule handle_requests_can_wait[OF can_wait_example])
  have c0: "clock (waited slow_then_fast example_state) = 600000"
    "tick (waited slow_then_fast example_state) = 3"
    unfolding waited_steps[OF can_wait_example]
    by (simp_all add: example_state_def slow_then_fast_def Let_def)
  have c1: "clock ?s1 = 5600000" "tick ?s1 = 4" "last_request_time ?s1 = 600000"
    "request_delay ?s1 = 600000"
    using handle_requests_clock[OF can_wait_example post_is_function(1), of slow_then_fast "''polyanets''" ?k1]
      handle_requests_fields(3)[OF surjective_pairing, of slow_then_fast "''post''" "''polyanets''" ?k1 example_state]
    unfolding c0 by (simp_all add: slow_then_fast_def example_state_def)
  have c2: "clock (waited slow_then_fast ?s1) = 5600000" "tick (waited slow_then_fast ?s1) = 6"
    unfolding waited_steps[OF w1] c1 by (simp_all add: slow_then_fast_def Let_def)
  have c3: "clock ?s2 = 5700000" "last_request_time ?s2 = 5600000"
    using handle_requests_clock[OF w1 post_is_function(1), of slow_then_fast "''polyanets''" ?k2]
    unfolding c2 by (simp_all add: slow_then_fast_def)
  show ?thesis unfolding r using c1 c3 by (simp add: example_state_def)
qed




text \<open>
  Claim C6, as the code has it. A dispatch whose rate limiter can wait and whose method
  names a request function hands one request to the transport. Its body is the
  caller's fields (a keyword dictionary, each key once) together with the entry
  \<open>candidateId\<close>; the key \<open>candidateId\<close> is always present, and its value is the configured
  candidate id whenever the caller supplies no field of that name.
\<close>

theorem payload_carries_candidate_id:
  assumes "can_wait s" and "method \<in> set requests_functions" and "distinct (map fst kwards)"
  shows "sent (snd (handle_requests env method endpoint kwards s)) =
           sent s @ [new_request s method endpoint kwards]
       \<and> map_of (req_data (new_request s method endpoint kwards)) =
           [''candidateId'' \<mapsto> PStr (candidate_id s)] ++ map_of kwards
       \<and> ''candidateId'' \<in> fst ` set (req_data (new_request s method endpoint kwards))
       \<and> (''candidateId'' \<notin> fst ` set kwards \<longrightarrow>
            map_of (req_data (new_request s method endpoint kwards)) ''candidateId''
              = Some (PStr (candidate_id s)))"
proof -
  have m: "map_of (req_data (new_request s method endpoint kwards)) =
           [''candidateId'' \<mapsto> PStr (candidate_id s)] ++ map_of kwards"
    using map_of_rev_distinct[OF assms(3)] by (simp add: new_request_def dict_unpack_map_of)
  have k: "''candidateId'' \<in> fst ` set (req_data (new_request s method endpoint kwards))"
    by (simp add: new_request_def dict_unpack_keys)
  have "map_of (req_data (new_request s method endpoint kwards)) ''candidateId''
              = Some (PStr (candidate_id s))" if "''candidateId'' \<notin> fst ` set kwards"
  proof -
    from that have "map_of kwards ''candidateId'' = None" by (simp add: map_of_eq_None_iff)
    then show ?thesis unfolding m by (simp add: map_add_def)
  qed
  with m k handle_requests_sent[OF assms(1,2), of env endpoint kwards] show ?thesis by blast
qed

text \<open>The body of a request for a Polyanet at (2, 8).\<close>

theorem payload_carries_candidate_id_witness:
  "req_data (last (sent (snd (handle_requests offline ''post'' ''polyanets''
       [(''row'', PInt 2), (''column'', PInt 8)] example_state))))
     = [(''candidateId'', PStr ''abc''), (''row'', PInt 2), (''column'', PInt 8)]"
proof -
  have d: "distinct (map fst [(''row'', PInt 2), (''column'', PInt 8)])" by simp
  from payload_carries_candidate_id[OF can_wait_example post_is_function(1) d, of offline "''polyanets''"]
  have "sent (snd (handle_requests offline ''post'' ''polyanets''
       [(''row'', PInt 2), (''column'', PInt 8)] example_state))
      = sent example_state @ [new_request example_state ''post'' ''polyanets'' [(''row'', PInt 2), (''column'', PInt 8)]]"
    by (rule conjunct1)
  then show ?thesis
    by (simp add: new_request_def dict_unpack_def example_state_def)
qed

text \<open>
  Claim C6 as the specification words it, with a candidate id that no field of the caller
  can override, fails: the fields are unpacked after the entry \<open>candidateId\<close>, so a field
  of that name replaces the configured value.
\<close>

theorem candidate_id_overridden:
  "req_data (last (sent (snd (handle_requests offline ''post'' ''polyanets''
       [(''candidateId'', PStr ''intruder'')] example_state))))
     = [(''candidateId'', PStr ''intruder'')]
   \<and> candidate_id example_state = ''abc''"
proof -
  have "sent (snd (handle_requests offline ''post'' ''polyanets''
       [(''candidateId'', PStr ''intruder'')] example_state))
      = sent example_state @ [new_request example_state ''post'' ''polyanets'' [(''candidateId'', PStr ''intruder'')]]"
    by (rule handle_requests_sent[OF can_wait_example post_is_function(1)])
  then show ?thesis
    by (simp add: new_request_def dict_unpack_def example_state_def)
qed

subsection \<open>The builder on a failed fetch\<close>

text \<open>
  Claim C7, as the code has it. When the dispatcher returns for the fetch of the goal map
  something that is not a dictionary (\<open>None\<close> after a failure, or a JSON value that is
  not an object), the builder returns without exception and the fetch is the only request
  sent.
\<close>

theorem builder_skips_non_dict:
  assumes "fst (goal_map env s) = Inr response" and "\<not> is_dict response"
  shows "create_crossmint_logo env s = (Inr (), snd (goal_map env s))
       \<and> sent (snd (create_crossmint_logo env s)) = sent s @ [goal_request s]"
proof -
  obtain s1 where g: "goal_map env s = (Inr response, s1)"
    using assms(1) by (cases "goal_map env s") simp
  have c: "create_crossmint_logo env s = (Inr (), s1)"
    using g assms(2) by (simp add: create_crossmint_logo_def is_dict_def split: option.splits json.splits)
  have "sent s1 = sent s @ [goal_request s]"
    using handle_requests_returned[of env "''get''" "''map/'' @ candidate_id s @ ''/goal''" "[]" s response] g
    by (simp add: goal_map_def goal_request_def)
  with c g show ?thesis by simp
qed

text \<open>Without network, and with a list as the body of the response.\<close>

theorem builder_skips_non_dict_witness:
  "create_crossmint_logo offline example_state = (Inr (), snd (goal_map offline example_state))
   \<and> sent (snd (create_crossmint_logo offline example_state)) = [goal_request example_state]
   \<and> sent (snd (create_crossmint_logo (example_env (JArr []) created (\<lambda>k. 0)) example_state))
       = [goal_request example_state]"
proof -
  have f1: "fst (goal_map offline example_state) = Inr None"
    unfolding goal_map_def
    using handle_requests_result(1)[OF can_wait_example post_is_function(2), of offline "''map/'' @ candidate_id example_state @ ''/goal''" "[]"]
    by (simp add: offline_def refused_def attempt_def caught_def isinstance_def)
  have f2: "fst (goal_map (example_env (JArr []) created (\<lambda>k. 0)) example_state) = Inr (Some (JArr []))"
    unfolding goal_map_def
    using handle_requests_result(1)[OF can_wait_example post_is_function(2), of "example_env (JArr []) created (\<lambda>k. 0)" "''map/'' @ candidate_id example_state @ ''/goal''" "[]"]
    by (simp add: example_env_def new_request_def attempt_def raise_for_status_def)
  have n1: "\<not> is_dict None" and n2: "\<not> is_dict (Some (JArr []))" by (simp_all add: is_dict_def)
  note a = builder_skips_non_dict[OF f1 n1] and b = builder_skips_non_dict[OF f2 n2]
  have e: "sent example_state = []" by (simp add: example_state_def)
  show ?thesis
    using a[THEN conjunct1] a[THEN conjunct2] b[THEN conjunct2] unfolding e append_Nil
    by (intro conjI)
qed

text \<open>
  Claim C7 as the specification words it, for every response that does not carry the
  grid, fails: for a JSON object without the field \<open>goal\<close> the builder raises KeyError.
\<close>

theorem builder_raises_without_goal_key:
  "fst (create_crossmint_logo (example_env (JObj [(''message'', JStr ''Not Found'')]) created (\<lambda>k. 0)) example_state)
     = Inl (Exc [KeyError] ''goal'')"
proof -
  let ?body = "JObj [(''message'', JStr ''Not Found'')]"
  from goal_map_ok[OF can_wait_example fetched_example(1) fetched_example(2), of ?body ?body created "\<lambda>k. 0"]
  obtain s1 where "goal_map (example_env ?body created (\<lambda>k. 0)) example_state = (Inr (Some ?body), s1)"
    by auto
  then show ?thesis by (simp add: create_crossmint_logo_def)
qed

end
